theory Spec2Isabelle
  imports Main "HOL-Library.Word"
begin

unbundle bit_operations_syntax

section \<open>The key codec: varint bytes in base64\<close>

text \<open>
  Both backends turn the numeric identifier into the public key in the same way
  (\<^verbatim>\<open>Save\<close> in \<^verbatim>\<open>backend/redis/redis.go\<close> and in the sqlite3 backend):
  \<^verbatim>\<open>
    buf := make([]byte, 8)
    size := binary.PutVarint(buf, index)
    key := base64.RawStdEncoding.EncodeToString(buf[:size])   // redis
    return base64.RawURLEncoding.EncodeToString(buf[:size])   // sqlite3
  \<close>
  and the sqlite3 backend turns a key back into the identifier with
  \<^verbatim>\<open>
    func toInt64(s string) (int64, error) {
        buf, err := base64.RawURLEncoding.DecodeString(s)
        if err != nil { return 0, ErrWrongKey }
        id, _ := binary.Varint(buf)
        return id, nil
    }
  \<close>
  The functions of Go's \<^verbatim>\<open>encoding/binary\<close> and \<^verbatim>\<open>encoding/base64\<close> are modelled
  after the standard library: a byte is an \<open>8 word\<close>, \<^verbatim>\<open>int64\<close> and \<^verbatim>\<open>uint64\<close> are
  \<open>64 word\<close> (read signed with \<open>sint\<close>), a Go string is a \<open>string\<close> of bytes.
\<close>

type_synonym byte = "8 word"
type_synonym int64 = "64 word"
type_synonym uint64 = "64 word"

subsection \<open>encoding/binary: PutUvarint, PutVarint, Uvarint, Varint\<close>

text \<open>
  \<^verbatim>\<open>
    func PutUvarint(buf []byte, x uint64) int {
        i := 0
        for x >= 0x80 {
            buf[i] = byte(x) | 0x80
            x >>= 7
            i++
        }
        buf[i] = byte(x)
        return i + 1
    }
  \<close>
  Writing \<^verbatim>\<open>buf[i]\<close> with \<^verbatim>\<open>i >= len(buf)\<close> panics: the result is \<open>None\<close>.
\<close>

function PutUvarint_loop :: "byte list \<Rightarrow> nat \<Rightarrow> uint64 \<Rightarrow> (byte list \<times> nat) option" where
  "PutUvarint_loop buf i x =
     (if 0x80 \<le> x then
        (if i < length buf
         then PutUvarint_loop (buf[i := ucast x OR 0x80]) (i + 1) (drop_bit 7 x)
         else None)
      else
        (if i < length buf then Some (buf[i := ucast x], i + 1) else None))"
  by pat_completeness auto
termination
proof (relation "measure (\<lambda>(buf, i, x). unat x)")
  show "wf (measure (\<lambda>(buf, i, x). unat x))" by simp
next
  fix buf :: "byte list" and i :: nat and x :: uint64
  assume "0x80 \<le> x"
  then have "128 \<le> unat x" by (simp add: word_le_nat_alt)
  then have "unat x div 128 < unat x" by simp
  then show "((buf[i := ucast x OR 0x80], i + 1, drop_bit 7 x), (buf, i, x))
               \<in> measure (\<lambda>(buf, i, x). unat x)"
    by (simp add: unat_drop_bit_eq drop_bit_eq_div unat_div)
qed

declare PutUvarint_loop.simps [simp del]

definition PutUvarint :: "byte list \<Rightarrow> uint64 \<Rightarrow> (byte list \<times> nat) option" where
  "PutUvarint buf x = PutUvarint_loop buf 0 x"

text \<open>
  \<^verbatim>\<open>
    func PutVarint(buf []byte, x int64) int {
        ux := uint64(x) << 1
        if x < 0 {
            ux = ^ux
        }
        return PutUvarint(buf, ux)
    }
  \<close>
\<close>

definition PutVarint :: "byte list \<Rightarrow> int64 \<Rightarrow> (byte list \<times> nat) option" where
  "PutVarint buf x =
     (let ux = push_bit 1 x;
          ux = (if sint x < 0 then NOT ux else ux)
      in PutUvarint buf ux)"

text \<open>
  \<^verbatim>\<open>
    func Uvarint(buf []byte) (uint64, int) {
        var x uint64
        var s uint
        for i, b := range buf {
            if i == MaxVarintLen64 {
                return 0, -(i + 1) // overflow
            }
            if b < 0x80 {
                if i == MaxVarintLen64-1 && b > 1 {
                    return 0, -(i + 1) // overflow
                }
                return x | uint64(b)<<s, i + 1
            }
            x |= uint64(b&0x7f) << s
            s += 7
        }
        return 0, 0
    }
  \<close>
  with \<^verbatim>\<open>MaxVarintLen64 = 10\<close>.
\<close>

fun Uvarint_loop :: "nat \<Rightarrow> uint64 \<Rightarrow> nat \<Rightarrow> byte list \<Rightarrow> uint64 \<times> int" where
  "Uvarint_loop i x s [] = (0, 0)"
| "Uvarint_loop i x s (b # bs) =
     (if i = 10 then (0, - (int i + 1))
      else if b < 0x80 then
        (if i = 9 \<and> 1 < b then (0, - (int i + 1))
         else (x OR push_bit s (ucast b), int i + 1))
      else Uvarint_loop (i + 1) (x OR push_bit s (ucast (b AND 0x7f))) (s + 7) bs)"

definition Uvarint :: "byte list \<Rightarrow> uint64 \<times> int" where
  "Uvarint buf = Uvarint_loop 0 0 0 buf"

text \<open>
  \<^verbatim>\<open>
    func Varint(buf []byte) (int64, int) {
        ux, n := Uvarint(buf) // ok to continue in presence of error
        x := int64(ux >> 1)
        if ux&1 != 0 {
            x = ^x
        }
        return x, n
    }
  \<close>
\<close>

definition Varint :: "byte list \<Rightarrow> int64 \<times> int" where
  "Varint buf =
     (case Uvarint buf of (ux, n) \<Rightarrow>
        let x = drop_bit 1 ux;
            x = (if ux AND 1 \<noteq> 0 then NOT x else x)
        in (x, n))"

subsection \<open>encoding/base64: the two unpadded encodings\<close>

definition encodeStd :: string where
  "encodeStd = ''ABCDEFGHIJKLMNOPQRSTUVWXYZabcdefghijklmnopqrstuvwxyz0123456789+/''"

definition encodeURL :: string where
  "encodeURL = ''ABCDEFGHIJKLMNOPQRSTUVWXYZabcdefghijklmnopqrstuvwxyz0123456789-_''"

text \<open>
  \<^verbatim>\<open>Encode\<close> of an encoding without padding: three source bytes give four characters,
  a rest of two bytes gives three characters and a rest of one byte gives two.
  \<^verbatim>\<open>
    val := uint(src[si+0])<<16 | uint(src[si+1])<<8 | uint(src[si+2])
    dst[di+0] = enc.encode[val>>18&0x3F]
    dst[di+1] = enc.encode[val>>12&0x3F]
    dst[di+2] = enc.encode[val>>6&0x3F]
    dst[di+3] = enc.encode[val&0x3F]
  \<close>
\<close>

definition sextet :: "string \<Rightarrow> uint64 \<Rightarrow> nat \<Rightarrow> char" where
  "sextet enc val sh = enc ! unat (drop_bit sh val AND 0x3F)"

fun EncodeToString :: "string \<Rightarrow> byte list \<Rightarrow> string" where
  "EncodeToString enc (a # b # c # src) =
     (let val = push_bit 16 (ucast a) OR push_bit 8 (ucast b) OR ucast c
      in sextet enc val 18 # sextet enc val 12 # sextet enc val 6 # sextet enc val 0
         # EncodeToString enc src)"
| "EncodeToString enc [a, b] =
     (let val = push_bit 16 (ucast a) OR push_bit 8 (ucast b)
      in [sextet enc val 18, sextet enc val 12, sextet enc val 6])"
| "EncodeToString enc [a] =
     (let val = push_bit 16 (ucast a)
      in [sextet enc val 18, sextet enc val 12])"
| "EncodeToString enc [] = []"

text \<open>
  The decoder's table: \<^verbatim>\<open>decodeMap[encoder[i]] = byte(i)\<close>, every other entry \<^verbatim>\<open>0xFF\<close>.
\<close>

fun decodeMap_from :: "nat \<Rightarrow> string \<Rightarrow> char \<Rightarrow> byte" where
  "decodeMap_from i [] c = 0xFF"
| "decodeMap_from i (e # es) c = (if e = c then of_nat i else decodeMap_from (i + 1) es c)"

definition decodeMap :: "string \<Rightarrow> char \<Rightarrow> byte" where
  "decodeMap enc c = decodeMap_from 0 enc c"

datatype base64_error = CorruptInputError

text \<open>
  \<^verbatim>\<open>DecodeString\<close> of an encoding without padding, not strict: carriage returns and
  line feeds are dropped, a character outside the alphabet is a \<^verbatim>\<open>CorruptInputError\<close>,
  four characters give three bytes, a rest of three characters gives two bytes, of two
  characters one byte, and a rest of one character is a \<^verbatim>\<open>CorruptInputError\<close>.
  \<^verbatim>\<open>
    val := uint(dbuf[0])<<18 | uint(dbuf[1])<<12 | uint(dbuf[2])<<6 | uint(dbuf[3])
    dst[2] = byte(val >> 0); dst[1] = byte(val >> 8); dst[0] = byte(val >> 16)
  \<close>
\<close>

definition quantum :: "byte \<Rightarrow> byte \<Rightarrow> byte \<Rightarrow> byte \<Rightarrow> uint64" where
  "quantum d0 d1 d2 d3 =
     push_bit 18 (ucast d0) OR push_bit 12 (ucast d1) OR push_bit 6 (ucast d2) OR ucast d3"

fun decode_quanta :: "string \<Rightarrow> string \<Rightarrow> base64_error + byte list" where
  "decode_quanta enc (a # b # c # d # src) =
     (if decodeMap enc a = 0xFF \<or> decodeMap enc b = 0xFF
         \<or> decodeMap enc c = 0xFF \<or> decodeMap enc d = 0xFF
      then Inl CorruptInputError
      else (let val = quantum (decodeMap enc a) (decodeMap enc b) (decodeMap enc c) (decodeMap enc d)
            in case decode_quanta enc src of
                 Inl e \<Rightarrow> Inl e
               | Inr dst \<Rightarrow> Inr (ucast (drop_bit 16 val) # ucast (drop_bit 8 val) # ucast val # dst)))"
| "decode_quanta enc [a, b, c] =
     (if decodeMap enc a = 0xFF \<or> decodeMap enc b = 0xFF \<or> decodeMap enc c = 0xFF
      then Inl CorruptInputError
      else (let val = quantum (decodeMap enc a) (decodeMap enc b) (decodeMap enc c) 0
            in Inr [ucast (drop_bit 16 val), ucast (drop_bit 8 val)]))"
| "decode_quanta enc [a, b] =
     (if decodeMap enc a = 0xFF \<or> decodeMap enc b = 0xFF
      then Inl CorruptInputError
      else (let val = quantum (decodeMap enc a) (decodeMap enc b) 0 0
            in Inr [ucast (drop_bit 16 val)]))"
| "decode_quanta enc [a] = Inl CorruptInputError"
| "decode_quanta enc [] = Inr []"

definition DecodeString :: "string \<Rightarrow> string \<Rightarrow> base64_error + byte list" where
  "DecodeString enc s =
     decode_quanta enc (filter (\<lambda>c. c \<noteq> CHR 0x0A \<and> c \<noteq> CHR 0x0D) s)"

subsection \<open>The backends' use of the codec\<close>

text \<open>
  The key of an identifier, as both \<^verbatim>\<open>Save\<close> functions compute it from a fresh buffer of
  eight bytes; \<open>None\<close> is the panic of \<^verbatim>\<open>PutVarint\<close> on a buffer that is too short.
\<close>

definition encode_key :: "string \<Rightarrow> int64 \<Rightarrow> string option" where
  "encode_key enc index =
     (case PutVarint (replicate 8 0) index of
        None \<Rightarrow> None
      | Some (buf, n) \<Rightarrow> Some (EncodeToString enc (take n buf)))"

section \<open>Errors, time and the records of the interface\<close>

text \<open>
  Both backend packages declare \<^verbatim>\<open>ErrWrongKey\<close> and \<^verbatim>\<open>ErrTTL\<close>. The other errors come
  from the stores: \<^verbatim>\<open>redis.Nil\<close> (a reply without a value), the server's \<^verbatim>\<open>WRONGTYPE\<close>
  and overflow replies, and the database's refusal of an insert.
\<close>

datatype error = ErrWrongKey | ErrTTL | RedisNil | WrongType | Overflow | InsertFailed

text \<open>
  A \<^verbatim>\<open>time.Time\<close> is the number of nanoseconds since the Unix epoch, \<^verbatim>\<open>t.Unix()\<close> the
  whole seconds of it; a \<^verbatim>\<open>time.Duration\<close> is an \<^verbatim>\<open>int64\<close> of nanoseconds. Times and Unix
  seconds are integers without a bound: the seconds of a clock and of a clock plus a
  duration are far inside \<^verbatim>\<open>int64\<close>.
\<close>

type_synonym Time = int
type_synonym Duration = int64

definition Second :: Duration where
  "Second = 1000000000"

definition Unix :: "Time \<Rightarrow> int" where
  "Unix t = t div 1000000000"

definition Add :: "Time \<Rightarrow> Duration \<Rightarrow> Time" where
  "Add t d = t + sint d"

definition maxLength :: nat where
  "maxLength = 2048"

definition MaxInt64 :: int64 where
  "MaxInt64 = 0x7FFFFFFFFFFFFFFF"

record Metadata =
  URL :: string
  TTL :: int
  Clicked :: int
  Created :: int

definition toInt64 :: "string \<Rightarrow> error + int64" where
  "toInt64 s =
     (case DecodeString encodeURL s of
        Inl err \<Rightarrow> Inl ErrWrongKey
      | Inr buf \<Rightarrow> Inr (fst (Varint buf)))"

section \<open>The Redis backend\<close>

subsection \<open>The server\<close>

text \<open>
  The backend keeps one hash per link under \<^verbatim>\<open>prefix + key\<close>, with the fields
  \<^verbatim>\<open>url\<close>, \<^verbatim>\<open>created\<close>, \<^verbatim>\<open>until\<close> and \<^verbatim>\<open>count\<close> (the constants \<^verbatim>\<open>metaUrl\<close>,
  \<^verbatim>\<open>metaCreated\<close>, \<^verbatim>\<open>metaUntil\<close>, \<^verbatim>\<open>metaCount\<close>), and the identifier counter as a plain
  integer under \<^verbatim>\<open>prefix + "meta:count"\<close>. A field that the server has not been given is
  \<open>None\<close>. The integer fields are written with \<^verbatim>\<open>strconv.FormatInt\<close> and read with
  \<^verbatim>\<open>Int64()\<close> or \<^verbatim>\<open>strconv.ParseInt\<close>; the model keeps the integers. The server is taken
  to be reachable: a command fails only with a reply of the server.
\<close>

record hash =
  metaUrl :: "string option"
  metaCreated :: "int option"
  metaUntil :: "int option"
  metaCount :: "int64 option"

datatype redis_value = Counter int64 | Hash hash

type_synonym redis_db = "string \<Rightarrow> redis_value option"

definition no_fields :: hash where
  "no_fields = \<lparr>metaUrl = None, metaCreated = None, metaUntil = None, metaCount = None\<rparr>"

text \<open>\<^verbatim>\<open>INCR key\<close>: a missing key counts as 0; the reply is the new value.\<close>

definition Incr :: "redis_db \<Rightarrow> string \<Rightarrow> (error + int64) \<times> redis_db" where
  "Incr db k =
     (case db k of
        None \<Rightarrow> (Inr 1, db(k \<mapsto> Counter 1))
      | Some (Counter n) \<Rightarrow>
          (if n = MaxInt64 then (Inl Overflow, db)
           else (Inr (n + 1), db(k \<mapsto> Counter (n + 1))))
      | Some (Hash h) \<Rightarrow> (Inl WrongType, db))"

text \<open>\<^verbatim>\<open>HSET key field value\<close>, the field given by its update of the hash.\<close>

definition HSet :: "redis_db \<Rightarrow> string \<Rightarrow> (hash \<Rightarrow> hash) \<Rightarrow> error option \<times> redis_db" where
  "HSet db k upd =
     (case db k of
        None \<Rightarrow> (None, db(k \<mapsto> Hash (upd no_fields)))
      | Some (Hash h) \<Rightarrow> (None, db(k \<mapsto> Hash (upd h)))
      | Some (Counter n) \<Rightarrow> (Some WrongType, db))"

text \<open>\<^verbatim>\<open>HGET key field\<close>, the field given by its selector.\<close>

definition HGet :: "redis_db \<Rightarrow> string \<Rightarrow> (hash \<Rightarrow> 'a option) \<Rightarrow> error + 'a" where
  "HGet db k field =
     (case db k of
        None \<Rightarrow> Inl RedisNil
      | Some (Hash h) \<Rightarrow> (case field h of None \<Rightarrow> Inl RedisNil | Some v \<Rightarrow> Inr v)
      | Some (Counter n) \<Rightarrow> Inl WrongType)"

text \<open>\<^verbatim>\<open>HINCRBY key count 1\<close>: a missing key or field counts as 0.\<close>

definition HIncrBy :: "redis_db \<Rightarrow> string \<Rightarrow> (error + int64) \<times> redis_db" where
  "HIncrBy db k =
     (case db k of
        None \<Rightarrow> (Inr 1, db(k \<mapsto> Hash (no_fields\<lparr>metaCount := Some 1\<rparr>)))
      | Some (Hash h) \<Rightarrow>
          (case metaCount h of
             None \<Rightarrow> (Inr 1, db(k \<mapsto> Hash (h\<lparr>metaCount := Some 1\<rparr>)))
           | Some c \<Rightarrow>
               (if c = MaxInt64 then (Inl Overflow, db)
                else (Inr (c + 1), db(k \<mapsto> Hash (h\<lparr>metaCount := Some (c + 1)\<rparr>)))))
      | Some (Counter n) \<Rightarrow> (Inl WrongType, db))"

text \<open>\<^verbatim>\<open>HGETALL key\<close>: a missing key gives the empty map.\<close>

definition HGetAll :: "redis_db \<Rightarrow> string \<Rightarrow> error + hash" where
  "HGetAll db k =
     (case db k of
        None \<Rightarrow> Inr no_fields
      | Some (Hash h) \<Rightarrow> Inr h
      | Some (Counter n) \<Rightarrow> Inl WrongType)"

text \<open>\<^verbatim>\<open>len(objMap)\<close> of the map \<^verbatim>\<open>HGetAll\<close> returns.\<close>

definition len :: "hash \<Rightarrow> nat" where
  "len h = (if metaUrl h = None then 0 else 1) + (if metaCreated h = None then 0 else 1)
         + (if metaUntil h = None then 0 else 1) + (if metaCount h = None then 0 else 1)"

text \<open>
  \<^verbatim>\<open>Pipelined\<close> sends every queued command and returns the error of the first command
  that failed, \<^verbatim>\<open>redis.Nil\<close> included.
\<close>

fun first_error :: "error option list \<Rightarrow> error option" where
  "first_error [] = None"
| "first_error (None # es) = first_error es"
| "first_error (Some e # es) = Some e"

definition cmd_err :: "error + 'a \<Rightarrow> error option" where
  "cmd_err r = (case r of Inl e \<Rightarrow> Some e | Inr v \<Rightarrow> None)"

text \<open>\<^verbatim>\<open>Val()\<close> and \<^verbatim>\<open>Int64()\<close> of a command: the zero value when the command failed.\<close>

definition Val :: "error + string \<Rightarrow> string" where
  "Val r = (case r of Inl e \<Rightarrow> [] | Inr v \<Rightarrow> v)"

definition Int64 :: "error + int \<Rightarrow> int" where
  "Int64 r = (case r of Inl e \<Rightarrow> 0 | Inr v \<Rightarrow> v)"

subsection \<open>The backend of \<^verbatim>\<open>backend/redis/redis.go\<close>\<close>

record Redis =
  conn :: redis_db
  prefix :: string

text \<open>
  \<^verbatim>\<open>var escape = regexp.MustCompile(`[^0-9A-Za-z_-]`)\<close>: \<^verbatim>\<open>escape.MatchString(key)\<close>
  holds when some character of the key is outside the class.
\<close>

definition allowed :: "char \<Rightarrow> bool" where
  "allowed c =
     (let n = (of_char c :: nat)
      in (48 \<le> n \<and> n \<le> 57) \<or> (65 \<le> n \<and> n \<le> 90) \<or> (97 \<le> n \<and> n \<le> 122)
         \<or> c = CHR ''_'' \<or> c = CHR ''-'')"

definition escape_MatchString :: "string \<Rightarrow> bool" where
  "escape_MatchString key = list_ex (\<lambda>c. \<not> allowed c) key"

text \<open>
  \<^verbatim>\<open>
    func (r Redis) Save(value string, ttl time.Duration) string {
        index, err := r.conn.Incr(r.prefix + "meta:count").Result()
        if err != nil { return "" }
        buf := make([]byte, 8)
        size := binary.PutVarint(buf, index)
        key := base64.RawStdEncoding.EncodeToString(buf[:size])
        path := r.prefix + key
        _, err = r.conn.Pipelined(func(pipe *redis.Pipeline) error {
            now := time.Now()
            pipe.HSet(path, metaUrl, value)
            pipe.HSet(path, metaCreated, strconv.FormatInt(now.Unix(), 10))
            if ttl == 0 {
                pipe.HSet(path, metaUntil, "0")
                return nil
            }
            pipe.HSet(path, metaUntil, strconv.FormatInt(now.Add(ttl).Unix(), 10))
            return nil
        })
        if err != nil { return "" }
        return key
    }
  \<close>
  The result is the returned string and the server afterwards; \<open>None\<close> is the panic of
  \<^verbatim>\<open>PutVarint\<close>. \<open>now\<close> is what \<^verbatim>\<open>time.Now()\<close> returns.
\<close>

definition Redis_Save :: "Redis \<Rightarrow> string \<Rightarrow> Duration \<Rightarrow> Time \<Rightarrow> string option \<times> Redis" where
  "Redis_Save r value ttl now =
     (case Incr (conn r) (prefix r @ ''meta:count'') of
        (Inl err, db) \<Rightarrow> (Some [], r\<lparr>conn := db\<rparr>)
      | (Inr index, db) \<Rightarrow>
          (case encode_key encodeStd index of
             None \<Rightarrow> (None, r\<lparr>conn := db\<rparr>)
           | Some key \<Rightarrow>
               (let path = prefix r @ key;
                    (e1, db1) = HSet db path (\<lambda>h. h\<lparr>metaUrl := Some value\<rparr>);
                    (e2, db2) = HSet db1 path (\<lambda>h. h\<lparr>metaCreated := Some (Unix now)\<rparr>);
                    (e3, db3) =
                      (if ttl = 0 then HSet db2 path (\<lambda>h. h\<lparr>metaUntil := Some 0\<rparr>)
                       else HSet db2 path (\<lambda>h. h\<lparr>metaUntil := Some (Unix (Add now ttl))\<rparr>))
                in (case first_error [e1, e2, e3] of
                      Some err \<Rightarrow> (Some [], r\<lparr>conn := db3\<rparr>)
                    | None \<Rightarrow> (Some key, r\<lparr>conn := db3\<rparr>)))))"

text \<open>
  \<^verbatim>\<open>
    func (r Redis) Get(key string) (string, error) {
        if escape.MatchString(key) { return "", ErrWrongKey }
        path := r.prefix + key
        var url *redis.StringCmd
        var until *redis.StringCmd
        _, err := r.conn.Pipelined(func(pipe *redis.Pipeline) error {
            url = pipe.HGet(path, metaUrl)
            until = pipe.HGet(path, metaUntil)
            pipe.HIncrBy(path, metaCount, 1)
            return nil
        })
        if err != nil { return "", err }
        if ttlTo, _ := until.Int64(); ttlTo != 0 && time.Now().Unix() > ttlTo {
            return "", ErrTTL
        }
        return url.Val(), nil
    }
  \<close>
\<close>

definition Redis_Get :: "Redis \<Rightarrow> string \<Rightarrow> Time \<Rightarrow> (error + string) \<times> Redis" where
  "Redis_Get r key now =
     (if escape_MatchString key then (Inl ErrWrongKey, r)
      else
        (let path = prefix r @ key;
             url = HGet (conn r) path metaUrl;
             until = HGet (conn r) path metaUntil;
             (incr, db) = HIncrBy (conn r) path
         in (case first_error [cmd_err url, cmd_err until, cmd_err incr] of
               Some err \<Rightarrow> (Inl err, r\<lparr>conn := db\<rparr>)
             | None \<Rightarrow>
                 (let ttlTo = Int64 until
                  in if ttlTo \<noteq> 0 \<and> Unix now > ttlTo then (Inl ErrTTL, r\<lparr>conn := db\<rparr>)
                     else (Inr (Val url), r\<lparr>conn := db\<rparr>)))))"

text \<open>
  \<^verbatim>\<open>
    func (r Redis) Info(key string) (*shrtie.Metadata, error) {
        path := r.prefix + key
        objMap, err := r.conn.HGetAll(path).Result()
        if err != nil { return nil, err }
        if len(objMap) == 0 { return nil, ErrWrongKey }
        var ttl int64
        var now = time.Now().Unix()
        if until, _ := strconv.ParseInt(objMap[metaUntil], 10, 64); until-now > 0 {
            ttl = until - now
        } else if until == 0 {
            ttl = 0
        } else {
            return nil, ErrTTL
        }
        created, _ := strconv.ParseInt(objMap[metaCreated], 10, 64)
        clicked, _ := strconv.ParseInt(objMap[metaCount], 10, 64)
        return &shrtie.Metadata{Url: objMap[metaUrl], TTL: ttl, Clicked: clicked,
                                Created: time.Unix(created, 0)}, nil
    }
  \<close>
  A field that is missing reads as the empty string, which parses as 0.
\<close>

definition Redis_Info :: "Redis \<Rightarrow> string \<Rightarrow> Time \<Rightarrow> error + Metadata" where
  "Redis_Info r key now =
     (let path = prefix r @ key
      in case HGetAll (conn r) path of
           Inl err \<Rightarrow> Inl err
         | Inr objMap \<Rightarrow>
             (if len objMap = 0 then Inl ErrWrongKey
              else
                (let until = (case metaUntil objMap of None \<Rightarrow> 0 | Some u \<Rightarrow> u);
                     created = (case metaCreated objMap of None \<Rightarrow> 0 | Some c \<Rightarrow> c);
                     clicked = (case metaCount objMap of None \<Rightarrow> 0 | Some c \<Rightarrow> sint c);
                     url = (case metaUrl objMap of None \<Rightarrow> [] | Some u \<Rightarrow> u)
                 in if until - Unix now > 0
                    then Inr \<lparr>URL = url, TTL = until - Unix now, Clicked = clicked, Created = created\<rparr>
                    else if until = 0
                    then Inr \<lparr>URL = url, TTL = 0, Clicked = clicked, Created = created\<rparr>
                    else Inl ErrTTL)))"

text \<open>
  The other revision of the Redis backend checks the length first and writes the three
  fields with one \<^verbatim>\<open>HMSET\<close>:
  \<^verbatim>\<open>
    func (r Redis) Save(value string, ttl time.Duration) string {
        if len(value) > maxLength { return "" }
        index, err := r.conn.Incr(r.prefix + "meta:count").Result()
        if err != nil { return "" }
        buf := make([]byte, 8)
        size := binary.PutVarint(buf, index)
        key := base64.RawStdEncoding.EncodeToString(buf[:size])
        now := time.Now()
        var until string
        if ttl == 0 { until = "0" } else { until = strconv.FormatInt(now.Add(ttl).Unix(), 10) }
        err = r.conn.HMSet(r.prefix+key, map[string]string{
            metaURL: value, metaCreated: strconv.FormatInt(now.Unix(), 10), metaUntil: until,
        }).Err()
        if err != nil { return "" }
        return key
    }
  \<close>
\<close>

definition Redis_Save_HMSet :: "Redis \<Rightarrow> string \<Rightarrow> Duration \<Rightarrow> Time \<Rightarrow> string option \<times> Redis" where
  "Redis_Save_HMSet r value ttl now =
     (if length value > maxLength then (Some [], r)
      else
        (case Incr (conn r) (prefix r @ ''meta:count'') of
           (Inl err, db) \<Rightarrow> (Some [], r\<lparr>conn := db\<rparr>)
         | (Inr index, db) \<Rightarrow>
             (case encode_key encodeStd index of
                None \<Rightarrow> (None, r\<lparr>conn := db\<rparr>)
              | Some key \<Rightarrow>
                  (let until = (if ttl = 0 then 0 else Unix (Add now ttl));
                       (err, db') = HSet db (prefix r @ key)
                          (\<lambda>h. h\<lparr>metaUrl := Some value, metaCreated := Some (Unix now),
                                  metaUntil := Some until\<rparr>)
                   in (case err of
                         Some e \<Rightarrow> (Some [], r\<lparr>conn := db'\<rparr>)
                       | None \<Rightarrow> (Some key, r\<lparr>conn := db'\<rparr>))))))"

text \<open>\<^verbatim>\<open>New\<close>: the backend on a server, with the prefix \<^verbatim>\<open>"shrtie/"\<close>.\<close>

definition Redis_New :: "redis_db \<Rightarrow> Redis" where
  "Redis_New db = \<lparr>conn = db, prefix = ''shrtie/''\<rparr>"

text \<open>The click count the server holds for a path, 0 when it holds none.\<close>

definition clicks :: "Redis \<Rightarrow> string \<Rightarrow> int" where
  "clicks r path =
     (case conn r path of
        Some (Hash h) \<Rightarrow> (case metaCount h of None \<Rightarrow> 0 | Some c \<Rightarrow> sint c)
      | Some (Counter n) \<Rightarrow> 0
      | None \<Rightarrow> 0)"

section \<open>The sqlite3 backend\<close>

text \<open>
  The table of \<^verbatim>\<open>prepare\<close>:
  \<^verbatim>\<open>
    CREATE TABLE IF NOT EXISTS shrtie_url (
        id INTEGER PRIMARY KEY AUTOINCREMENT NOT NULL,
        url TEXT NOT NULL,
        until INTEGER NOT NULL,
        count INTEGER DEFAULT 0 NOT NULL,
        created INTEGER NOT NULL);
  \<close>
  \<open>seq\<close> is the largest identifier the table has handed out: with \<^verbatim>\<open>AUTOINCREMENT\<close> the
  next row gets \<open>seq + 1\<close>, and the insert fails once the largest identifier is used.
\<close>

record row =
  col_url :: string
  col_until :: int
  col_count :: int
  col_created :: int

record Sqlite3 =
  seq :: int64
  shrtie_url :: "int64 \<Rightarrow> row option"

text \<open>
  \<^verbatim>\<open>INSERT INTO shrtie_url(url, until, created) VALUES (?,?,?)\<close>, with the result's
  \<^verbatim>\<open>LastInsertId()\<close>.
\<close>

definition insertStmt_Exec :: "Sqlite3 \<Rightarrow> string \<Rightarrow> int \<Rightarrow> int \<Rightarrow> (error + int64) \<times> Sqlite3" where
  "insertStmt_Exec s value until created =
     (if seq s = MaxInt64 then (Inl InsertFailed, s)
      else
        (let index = seq s + 1
         in (Inr index,
             s\<lparr>seq := index,
               shrtie_url := (shrtie_url s)(index \<mapsto>
                 \<lparr>col_url = value, col_until = until, col_count = 0, col_created = created\<rparr>)\<rparr>)))"

text \<open>
  \<^verbatim>\<open>SELECT url, until FROM shrtie_url WHERE id = ?\<close>: \<open>None\<close> is \<^verbatim>\<open>sql.ErrNoRows\<close>.
\<close>

definition getStmt_QueryRow :: "Sqlite3 \<Rightarrow> int64 \<Rightarrow> (string \<times> int) option" where
  "getStmt_QueryRow s index =
     (case shrtie_url s index of
        None \<Rightarrow> None
      | Some rw \<Rightarrow> Some (col_url rw, col_until rw))"

text \<open>
  \<^verbatim>\<open>
    func (s Sqlite3) Get(key string) (string, error) {
        id, err := toInt64(key)
        if err != nil { return "", err }
        var url string
        var until int64
        if err = s.getStmt.QueryRow(id).Scan(&url, &until); err != nil {
            return "", nil
        }
        if until < time.Now().Unix() { return "", ErrTTL }
        return url, nil
    }
  \<close>
  The statement \<^verbatim>\<open>incrStmt\<close> (\<^verbatim>\<open>UPDATE shrtie_url SET count = count + 1 WHERE id = ?\<close>)
  is prepared and never executed.
\<close>

definition Sqlite3_Get :: "Sqlite3 \<Rightarrow> string \<Rightarrow> Time \<Rightarrow> (error + string) \<times> Sqlite3" where
  "Sqlite3_Get s key now =
     (case toInt64 key of
        Inl err \<Rightarrow> (Inl err, s)
      | Inr index \<Rightarrow>
          (case getStmt_QueryRow s index of
             None \<Rightarrow> (Inr [], s)
           | Some (url, until) \<Rightarrow>
               (if until < Unix now then (Inl ErrTTL, s) else (Inr url, s))))"

text \<open>
  \<^verbatim>\<open>
    func (s Sqlite3) Save(value string, ttl time.Duration) string {
        if len(value) > maxLength { return "" }
        var until int64
        now := time.Now()
        if ttl != 0 { until = now.Add(ttl).Unix() }
        res, err := s.insertStmt.Exec(value, until, now.Unix())
        if err != nil { return "" }
        buf := make([]byte, 8)
        index, _ := res.LastInsertId()
        size := binary.PutVarint(buf, index)
        return base64.RawURLEncoding.EncodeToString(buf[:size])
    }
  \<close>
\<close>

definition Sqlite3_Save :: "Sqlite3 \<Rightarrow> string \<Rightarrow> Duration \<Rightarrow> Time \<Rightarrow> string option \<times> Sqlite3" where
  "Sqlite3_Save s value ttl now =
     (if length value > maxLength then (Some [], s)
      else
        (let until = (if ttl \<noteq> 0 then Unix (Add now ttl) else 0)
         in case insertStmt_Exec s value until (Unix now) of
              (Inl err, s') \<Rightarrow> (Some [], s')
            | (Inr index, s') \<Rightarrow> (encode_key encodeURL index, s')))"

text \<open>\<^verbatim>\<open>New\<close> on a database without the table: \<^verbatim>\<open>prepare\<close> creates it empty.\<close>

definition Sqlite3_New :: Sqlite3 where
  "Sqlite3_New = \<lparr>seq = 0, shrtie_url = Map.empty\<rparr>"

section \<open>The save handler\<close>

text \<open>
  \<^verbatim>\<open>
    type Entry struct {
        Url     string    `json:"url"`               // The URL to shorten
        TTL     int64     `json:"ttl,omitempty"`     // Time in seconds to life. Overwrites Expires
        Expires time.Time `json:"expires,omitempty"` // Sets the expiration date.
    }
  \<close>
  A request is its \<^verbatim>\<open>Content-Type\<close> header, its location (what \<^verbatim>\<open>concatURL\<close> reads of
  it: \<^verbatim>\<open>r.URL\<close>, \<^verbatim>\<open>r.Host\<close> and \<^verbatim>\<open>r.TLS\<close>) and its body as \<^verbatim>\<open>json.Decode\<close> reads it
  (\<open>None\<close> when decoding fails).
\<close>

record Entry =
  entry_Url :: string
  entry_TTL :: int64
  entry_Expires :: Time

record Request =
  content_type :: string
  location :: string
  body :: "Entry option"

datatype Response = Error nat string | Ack string

text \<open>
  The part of \<^verbatim>\<open>SaveHandler\<close> (and of \<^verbatim>\<open>GetSaveHandler\<close>, which has the same lines)
  that derives the ttl of the \<^verbatim>\<open>Save\<close> call:
  \<^verbatim>\<open>
    // Get TTL, if both (expiration date and ttl) are set ttl will overwrite date
    ttl = time.Duration(request.Expires.Unix()-time.Now().Unix()) * time.Second
    ttl = time.Duration(request.TTL) * time.Second
    if int64(ttl) < 0 {
        // Set ttl to inf
        ttl = time.Second * 0
    }
  \<close>
  The products are products of \<^verbatim>\<open>int64\<close> and wrap around.
\<close>

definition handler_ttl :: "Entry \<Rightarrow> Time \<Rightarrow> Duration" where
  "handler_ttl request now =
     (let ttl = word_of_int (Unix (entry_Expires request) - Unix now) * Second;
          ttl = entry_TTL request * Second;
          ttl = (if sint ttl < 0 then Second * 0 else ttl)
      in ttl)"

text \<open>
  \<^verbatim>\<open>
    if r.Header.Get("Content-Type") != "application/json" {
        http.Error(w, "Wrong application", http.StatusBadRequest)
        return
    }
    defer r.Body.Close()
    if err := json.NewDecoder(r.Body).Decode(&request); err != nil {
        http.Error(w, "Bad Data", http.StatusBadRequest)
        return
    }
    ...
    key := s.backend.Save(request.Url, ttl)
    response.Url = concatURL(r, key)
    w.Header().Add("Content-Type", "application-json")
    json.NewEncoder(w).Encode(response)
  \<close>
  The backend is the \<^verbatim>\<open>Save\<close> of a \<^verbatim>\<open>GetSaver\<close> on its store \<open>'s\<close>, with \<open>None\<close> for a
  panic inside it; \<^verbatim>\<open>concatURL\<close> builds the public link from the request's location and
  the key with \<^verbatim>\<open>net/url\<close> and is a parameter.
\<close>

definition SaveHandler ::
  "('s \<Rightarrow> string \<Rightarrow> Duration \<Rightarrow> string option \<times> 's) \<Rightarrow> (string \<Rightarrow> string \<Rightarrow> string)
     \<Rightarrow> 's \<Rightarrow> Request \<Rightarrow> Time \<Rightarrow> Response option \<times> 's" where
  "SaveHandler backend_Save concatURL s r now =
     (if content_type r \<noteq> ''application/json'' then (Some (Error 400 ''Wrong application''), s)
      else
        (case body r of
           None \<Rightarrow> (Some (Error 400 ''Bad Data''), s)
         | Some request \<Rightarrow>
             (case backend_Save s (entry_Url request) (handler_ttl request now) of
                (None, s') \<Rightarrow> (None, s')
              | (Some key, s') \<Rightarrow> (Some (Ack (concatURL (location r) key)), s'))))"

section \<open>Auxiliary functions of the proofs\<close>

text \<open>
  The bytes \<^verbatim>\<open>PutUvarint\<close> writes for \<open>x\<close>, as a list: seven bits a byte, the lowest
  first, every byte but the last with the top bit set.
\<close>

function uvarint_bytes :: "uint64 \<Rightarrow> byte list" where
  "uvarint_bytes x =
     (if 0x80 \<le> x then (ucast x OR 0x80) # uvarint_bytes (drop_bit 7 x) else [ucast x])"
  by pat_completeness auto
termination
proof (relation "measure unat")
  show "wf (measure unat)" by simp
next
  fix x :: uint64
  assume "0x80 \<le> x"
  then have "128 \<le> unat x" by (simp add: word_le_nat_alt)
  then have "unat x div 128 < unat x" by simp
  then show "(drop_bit 7 x, x) \<in> measure unat"
    by (simp add: unat_drop_bit_eq drop_bit_eq_div unat_div)
qed

declare uvarint_bytes.simps [simp del]

text \<open>The unsigned number \<^verbatim>\<open>PutVarint\<close> hands to \<^verbatim>\<open>PutUvarint\<close>.\<close>

definition zigzag :: "int64 \<Rightarrow> uint64" where
  "zigzag x = (let ux = push_bit 1 x in if sint x < 0 then NOT ux else ux)"

text \<open>
  An alphabet whose decoding table gives every character its index back: the sixty-four
  characters are distinct.
\<close>

definition alphabet :: "string \<Rightarrow> bool" where
  "alphabet enc = list_all (\<lambda>i. decodeMap enc (enc ! i) = of_nat i) [0..<64]"

text \<open>Whether \<^verbatim>\<open>HINCRBY\<close> on a path succeeds: the path holds no plain integer and the
  field \<^verbatim>\<open>count\<close> is not the largest \<^verbatim>\<open>int64\<close>.\<close>

definition can_count :: "Redis \<Rightarrow> string \<Rightarrow> bool" where
  "can_count r path =
     (case conn r path of
        None \<Rightarrow> True
      | Some (Hash h) \<Rightarrow> metaCount h \<noteq> Some MaxInt64
      | Some (Counter n) \<Rightarrow> False)"

text \<open>
  A hash that holds the url \<open>value\<close> and the expiry 0, which stands for no expiry.
\<close>

definition never_expiring :: "Redis \<Rightarrow> string \<Rightarrow> string \<Rightarrow> bool" where
  "never_expiring r path value =
     (case conn r path of
        Some (Hash h) \<Rightarrow> metaUntil h = Some 0 \<and> metaUrl h = Some value
      | Some (Counter n) \<Rightarrow> False
      | None \<Rightarrow> False)"

text \<open>
  A run of calls on the Redis backend, each with its arguments and the time its clock
  reads; \<^verbatim>\<open>Info\<close> writes nothing.
\<close>

datatype operation = Save string Duration Time | Get string Time | Info string Time

fun run :: "Redis \<Rightarrow> operation list \<Rightarrow> Redis" where
  "run r [] = r"
| "run r (Save value ttl now # ops) = run (snd (Redis_Save r value ttl now)) ops"
| "run r (Get key now # ops) = run (snd (Redis_Get r key now)) ops"
| "run r (Info key now # ops) = run r ops"

text \<open>
  What a run of calls keeps of a link saved with the ttl 0 under the identifier \<open>index\<close>:
  its hash holds the url and the expiry 0, and the identifier counter is not below
  \<open>index\<close>, so that no later \<^verbatim>\<open>Save\<close> gets this identifier again.
\<close>

definition kept :: "Redis \<Rightarrow> int64 \<Rightarrow> string \<Rightarrow> string \<Rightarrow> bool" where
  "kept r index key value =
     (never_expiring r (prefix r @ key) value
      \<and> (case conn r (prefix r @ ''meta:count'') of
            Some (Counter c) \<Rightarrow> sint index \<le> sint c
          | Some (Hash h) \<Rightarrow> False
          | None \<Rightarrow> False))"

section \<open>Example stores\<close>

text \<open>
  A server with one link, saved at second 100 with an expiry at second 200 and looked up
  three times.
\<close>

definition expired_link :: Redis where
  "expired_link = Redis_New (Map.empty(''shrtie/Ag'' \<mapsto>
     Hash \<lparr>metaUrl = Some ''https://example.org'', metaCreated = Some 100,
           metaUntil = Some 200, metaCount = Some 3\<rparr>))"

text \<open>The server after the first link was saved at second 100 with the ttl 0.\<close>

definition unlimited_link :: Redis where
  "unlimited_link = snd (Redis_Save (Redis_New Map.empty) ''https://example.org'' 0 100000000000)"

section \<open>The codec: what PutVarint writes, Varint reads\<close>

lemma encodeURL_length: "length encodeURL = 64"
  by (simp add: encodeURL_def)

lemma encodeStd_length: "length encodeStd = 64"
  by (simp add: encodeStd_def)

lemma uvarint_bytes_nonempty: "1 \<le> length (uvarint_bytes x)"
  by (subst uvarint_bytes.simps) simp

lemma PutUvarint_loop_eq:
  "PutUvarint_loop buf i x =
     (if i + length (uvarint_bytes x) \<le> length buf
      then Some (take i buf @ uvarint_bytes x @ drop (i + length (uvarint_bytes x)) buf,
                 i + length (uvarint_bytes x))
      else None)"
proof (induction buf i x rule: PutUvarint_loop.induct)
  case (1 buf i x)
  show ?case
  proof (cases "0x80 \<le> x")
    case big: True
    show ?thesis
    proof (cases "i < length buf")
      case True
      have bytes: "uvarint_bytes x = (ucast x OR 0x80) # uvarint_bytes (drop_bit 7 x)"
        using big by (subst uvarint_bytes.simps) simp
      have tk: "take (Suc i) (buf[i := ucast x OR 0x80]) = take i buf @ [ucast x OR 0x80]"
        using True by (simp add: take_Suc_conv_app_nth)
      show ?thesis
        using big True "1.IH" [OF big True]
        by (subst PutUvarint_loop.simps) (simp add: bytes tk)
    next
      case False
      moreover have "\<not> i + length (uvarint_bytes x) \<le> length buf"
        using False uvarint_bytes_nonempty [of x] by linarith
      ultimately show ?thesis
        using big by (subst PutUvarint_loop.simps) simp
    qed
  next
    case small: False
    have bytes: "uvarint_bytes x = [ucast x]"
      using small by (subst uvarint_bytes.simps) simp
    show ?thesis
      using small
      by (subst PutUvarint_loop.simps) (auto simp: bytes upd_conv_take_nth_drop)
  qed
qed


lemma m7f: "(0x7f :: 'a::len word) = mask 7"
  by (simp add: mask_eq_exp_minus_1)
lemma m3f: "(0x3f :: 'a::len word) = mask 6"
  by (simp add: mask_eq_exp_minus_1)

lemma nb8: "\<not> bit (w :: 8 word) (8 + n)" "\<not> bit (w :: 8 word) (16 + n)"
  by (auto dest: bit_imp_le_length)

lemma bit80: "bit (0x80 :: 'a::len word) n \<longleftrightarrow> n = 7 \<and> 7 < LENGTH('a)"
proof -
  have "(0x80 :: 'a word) = push_bit 7 1" by simp
  then show ?thesis by (simp only: bit_simps) (auto simp: bit_simps)
qed

lemma bit128_int: "bit (128::int) n \<longleftrightarrow> n = 7"
proof -
  have "(128::int) = push_bit 7 1" by simp
  then show ?thesis by (simp only: bit_simps) (auto simp: bit_simps)
qed

lemma bit_split: "bit (x::64 word) (k + (n - k)) \<longleftrightarrow> (if k \<le> n then bit x n else bit x k)"
  by simp

lemma varint_step:
  "ucast ((ucast (x::uint64) OR (0x80::byte)) AND 0x7f) OR push_bit 7 (drop_bit 7 x) = x"
  unfolding m7f
  by (rule bit_word_eqI) (simp add: bit_simps bit80 bit128_int bit_split)

lemma varint_last: "\<not> 0x80 \<le> x \<Longrightarrow> ucast (ucast (x::uint64) :: byte) = x"
proof -
  assume "\<not> 0x80 \<le> x"
  then have "x < 2 ^ 8" by (simp add: word_le_nat_alt word_less_nat_alt)
  then have "x AND mask 8 = x" 
    by (simp add: less_mask_eq)
  moreover have "ucast (ucast x :: byte) = x AND mask 8"
    by (rule bit_word_eqI) (auto simp: bit_simps)
  ultimately show ?thesis by simp
qed

lemma continuation_bit: "\<not> (y OR 0x80 :: byte) < 0x80"
proof -
  have "(0x80 :: byte) \<le> 0x80 OR y" by (rule le_word_or2)
  then show ?thesis by (simp add: or.commute)
qed

lemma small_byte: "\<not> 0x80 \<le> (x::uint64) \<Longrightarrow> (ucast x :: byte) < 0x80"
proof -
  assume a: "\<not> 0x80 \<le> x"
  then have "unat x < 128" by (simp add: word_le_nat_alt)
  moreover have "unat (ucast x :: byte) \<le> unat x"
    by (simp add: unsigned_ucast_eq)
  ultimately show ?thesis by (simp add: word_less_nat_alt)
qed

lemma Uvarint_loop_bytes:
  "i + length (uvarint_bytes x) \<le> 9 \<Longrightarrow>
   Uvarint_loop i acc s (uvarint_bytes x @ rest)
     = (acc OR push_bit s x, int (i + length (uvarint_bytes x)))"
proof (induction x arbitrary: i acc s rule: uvarint_bytes.induct)
  case (1 x)
  show ?case
  proof (cases "0x80 \<le> x")
    case True
    have bytes: "uvarint_bytes x = (ucast x OR 0x80) # uvarint_bytes (drop_bit 7 x)"
      using True by (subst uvarint_bytes.simps) simp
    have len: "Suc i + length (uvarint_bytes (drop_bit 7 x)) \<le> 9"
      using "1.prems" by (simp add: bytes)
    have i10: "i \<noteq> 10" using "1.prems" by auto
    have acc: "(acc OR push_bit s (ucast ((ucast x OR 0x80 :: byte) AND 0x7f)))
                 OR push_bit (s + 7) (drop_bit 7 x) = acc OR push_bit s x"
    proof -
      have "push_bit s (ucast ((ucast x OR 0x80 :: byte) AND 0x7f)) OR push_bit (s + 7) (drop_bit 7 x)
              = push_bit s (ucast ((ucast x OR 0x80 :: byte) AND 0x7f) OR push_bit 7 (drop_bit 7 x))"
        by (simp add: push_bit_add add.commute)
      then show ?thesis by (simp add: varint_step or.assoc)
    qed
    show ?thesis
      using "1.IH" [OF True len, of "acc OR push_bit s (ucast ((ucast x OR 0x80 :: byte) AND 0x7f))" "s + 7"]
      by (simp add: bytes continuation_bit i10 acc)
  next
    case False
    have bytes: "uvarint_bytes x = [ucast x]"
      using False by (subst uvarint_bytes.simps) simp
    have "i \<le> 8" using "1.prems" by (simp add: bytes)
    then show ?thesis
      by (simp add: bytes small_byte [OF False] varint_last [OF False])
  qed
qed

lemma Uvarint_bytes:
  "length (uvarint_bytes x) \<le> 9 \<Longrightarrow> Uvarint (uvarint_bytes x) = (x, int (length (uvarint_bytes x)))"
  using Uvarint_loop_bytes [of 0 x 0 0 "[]"] by (simp add: Uvarint_def)

lemma PutUvarint_take:
  "PutUvarint buf x = Some (buf', n) \<Longrightarrow> take n buf' = uvarint_bytes x"
  by (auto simp: PutUvarint_def PutUvarint_loop_eq split: if_splits)




section \<open>The codec: base64 without padding\<close>


lemma alphabet_encodeStd: "alphabet encodeStd"
  by code_simp

lemma decodeMap_nth: "alphabet enc \<Longrightarrow> i < 64 \<Longrightarrow> decodeMap enc (enc ! i) = of_nat i"
  by (simp add: alphabet_def list_all_iff)

lemma encodeURL_chars:
  "list_all (\<lambda>c. c \<noteq> CHR 0x0A \<and> c \<noteq> CHR 0x0D \<and> c \<noteq> CHR ''+'' \<and> c \<noteq> CHR ''/'' \<and> c \<noteq> CHR ''='') encodeURL"
  by code_simp

lemma six_bits: "unat (drop_bit sh val AND 0x3F :: uint64) < 64"
proof -
  have "drop_bit sh val AND 0x3F \<le> (0x3F :: uint64)" by (rule word_and_le1)
  then show ?thesis by (simp add: word_le_nat_alt)
qed

lemma sextet_in_alphabet: "length enc = 64 \<Longrightarrow> sextet enc val sh \<in> set enc"
  using six_bits [of sh val] by (simp add: sextet_def)

lemma decodeMap_sextet:
  "alphabet enc \<Longrightarrow> decodeMap enc (sextet enc val sh) = ucast (drop_bit sh val AND 0x3F)"
  using six_bits [of sh val] by (simp add: sextet_def decodeMap_nth)

lemma decodeMap_sextet_valid:
  assumes "alphabet enc"
  shows "decodeMap enc (sextet enc val sh) \<noteq> 0xFF"
proof -
  have "unat (ucast (drop_bit sh val AND 0x3F :: uint64) :: byte) \<le> unat (drop_bit sh val AND 0x3F :: uint64)"
    by (simp add: unsigned_ucast_eq)
  then have "unat (ucast (drop_bit sh val AND 0x3F :: uint64) :: byte) < 64"
    using six_bits [of sh val] by simp
  then show ?thesis by (auto simp: decodeMap_sextet [OF assms])
qed

lemma ucast_six_bits:
  "ucast (ucast (drop_bit sh val AND 0x3F :: uint64) :: byte) = (drop_bit sh val AND 0x3F :: uint64)"
proof (rule varint_last)
  have "unat (drop_bit sh val AND 0x3F :: uint64) < 128" using six_bits [of sh val] by simp
  then show "\<not> 0x80 \<le> (drop_bit sh val AND 0x3F :: uint64)" by (simp add: word_le_nat_alt)
qed

lemma quantum_sextets:
  assumes "alphabet enc"
  shows "quantum (decodeMap enc (sextet enc val 18)) (decodeMap enc (sextet enc val 12))
           (decodeMap enc (sextet enc val 6)) (decodeMap enc (sextet enc val 0))
     = val AND mask 24"
proof -
  have "push_bit 18 (drop_bit 18 val AND 0x3F) OR push_bit 12 (drop_bit 12 val AND 0x3F)
          OR push_bit 6 (drop_bit 6 val AND 0x3F) OR (drop_bit 0 val AND 0x3F) = (val AND mask 24 :: uint64)"
    unfolding m3f by (rule bit_word_eqI) (auto simp: bit_simps bit_split not_less not_le)
  then show ?thesis
    unfolding quantum_def decodeMap_sextet [OF assms] ucast_six_bits .
qed

lemma quantum_bytes:
  fixes a b c :: byte
  defines "val \<equiv> (push_bit 16 (ucast a) OR push_bit 8 (ucast b) OR ucast c :: uint64) AND mask 24"
  shows "ucast (drop_bit 16 val) = a" and "ucast (drop_bit 8 val) = b" and "ucast val = c"
  unfolding val_def
  by (rule bit_word_eqI; auto simp: bit_simps nb8)+

lemma low_sextets_zero:
  fixes a b :: byte
  shows "drop_bit 0 (push_bit 16 (ucast a) OR push_bit 8 (ucast b) :: uint64) AND 0x3F = 0"
    and "drop_bit 6 (push_bit 16 (ucast a) :: uint64) AND 0x3F = 0"
    and "drop_bit 0 (push_bit 16 (ucast a) :: uint64) AND 0x3F = 0"
  unfolding m3f
  by (rule bit_word_eqI; auto simp: bit_simps nb8)+

lemma decodeMap_zero_sextet:
  "alphabet enc \<Longrightarrow> drop_bit sh val AND 0x3F = (0::uint64) \<Longrightarrow> decodeMap enc (sextet enc val sh) = 0"
  by (simp add: decodeMap_sextet)

lemma decode_quanta_EncodeToString:
  "alphabet enc \<Longrightarrow> decode_quanta enc (EncodeToString enc src) = Inr src"
proof (induction enc src rule: EncodeToString.induct)
  case (1 enc a b c src)
  let ?val = "push_bit 16 (ucast a) OR push_bit 8 (ucast b) OR ucast c :: uint64"
  have enc: "EncodeToString enc (a # b # c # src)
      = sextet enc ?val 18 # sextet enc ?val 12 # sextet enc ?val 6
        # sextet enc ?val 0 # EncodeToString enc src"
    by (simp add: Let_def)
  note q = quantum_sextets [OF "1.prems", of ?val]
  note bytes = quantum_bytes [of a b c]
  show ?case
    unfolding enc decode_quanta.simps Let_def q bytes
    using "1.IH" "1.prems" by (simp add: decodeMap_sextet_valid)
next
  case (2 enc a b)
  let ?val = "push_bit 16 (ucast a) OR push_bit 8 (ucast b) :: uint64"
  have enc: "EncodeToString enc [a, b]
      = [sextet enc ?val 18, sextet enc ?val 12, sextet enc ?val 6]"
    by (simp add: Let_def)
  have q: "quantum (decodeMap enc (sextet enc ?val 18)) (decodeMap enc (sextet enc ?val 12))
           (decodeMap enc (sextet enc ?val 6)) 0 = ?val AND mask 24"
    using quantum_sextets [OF "2.prems", of ?val]
      decodeMap_zero_sextet [OF "2.prems" low_sextets_zero(1), of a b]
    by simp
  have bytes: "ucast (drop_bit 16 (?val AND mask 24)) = a" "ucast (drop_bit 8 (?val AND mask 24)) = b"
    using quantum_bytes(1,2) [of a b 0] by simp_all
  show ?case
    unfolding enc decode_quanta.simps Let_def q bytes
    using "2.prems" by (simp add: decodeMap_sextet_valid)
next
  case (3 enc a)
  let ?val = "push_bit 16 (ucast a) :: uint64"
  have enc: "EncodeToString enc [a] = [sextet enc ?val 18, sextet enc ?val 12]"
    by (simp add: Let_def)
  have q: "quantum (decodeMap enc (sextet enc ?val 18)) (decodeMap enc (sextet enc ?val 12))
           0 0 = ?val AND mask 24"
    using quantum_sextets [OF "3.prems", of ?val]
      decodeMap_zero_sextet [OF "3.prems" low_sextets_zero(2), of a]
      decodeMap_zero_sextet [OF "3.prems" low_sextets_zero(3), of a]
    by simp
  have bytes: "ucast (drop_bit 16 (?val AND mask 24)) = a"
    using quantum_bytes(1) [of a 0 0] by simp
  show ?case
    unfolding enc decode_quanta.simps Let_def q bytes
    using "3.prems" by (simp add: decodeMap_sextet_valid)
next
  case (4 enc)
  show ?case by simp
qed

lemma EncodeToString_inj:
  assumes "alphabet enc" and "EncodeToString enc a = EncodeToString enc b"
  shows "a = b"
proof -
  have "Inr a = decode_quanta enc (EncodeToString enc a)"
    using assms(1) by (simp add: decode_quanta_EncodeToString)
  also have "\<dots> = decode_quanta enc (EncodeToString enc b)"
    by (simp add: assms(2))
  also have "\<dots> = Inr b"
    using assms(1) by (simp add: decode_quanta_EncodeToString)
  finally show ?thesis by simp
qed

lemma EncodeToString_alphabet:
  "length enc = 64 \<Longrightarrow> set (EncodeToString enc src) \<subseteq> set enc"
  by (induction enc src rule: EncodeToString.induct) (auto simp: Let_def sextet_in_alphabet)


section \<open>The codec: different identifiers get different keys\<close>

lemma uvarint_bytes_inj:
  assumes "length (uvarint_bytes x) \<le> 9" and "uvarint_bytes x = uvarint_bytes y"
  shows "x = y"
proof -
  have x: "Uvarint (uvarint_bytes x) = (x, int (length (uvarint_bytes x)))"
    using assms(1) by (rule Uvarint_bytes)
  have "length (uvarint_bytes y) \<le> 9"
    using assms(1) by (simp only: assms(2))
  then have "Uvarint (uvarint_bytes y) = (y, int (length (uvarint_bytes y)))"
    by (rule Uvarint_bytes)
  then have "Uvarint (uvarint_bytes x) = (y, int (length (uvarint_bytes x)))"
    by (simp only: assms(2))
  with x have "(x, int (length (uvarint_bytes x))) = (y, int (length (uvarint_bytes x)))"
    by (simp only:)
  then show ?thesis by (simp only: prod.inject)
qed

lemma push_bit_1_inj:
  fixes x y :: int64
  assumes "push_bit 1 x = push_bit 1 y" and "bit x 63 = bit y 63"
  shows "x = y"
proof (rule bit_word_eqI)
  fix k assume k: "k < LENGTH(64)"
  show "bit x k = bit y k"
  proof (cases "k = 63")
    case True
    then show ?thesis using assms(2) by simp
  next
    case False
    then have "Suc k < 64" using k by simp
    then have "bit x k = bit (push_bit 1 x) (Suc k)" and "bit y k = bit (push_bit 1 y) (Suc k)"
      using bit_push_bit_iff [of 1 x "Suc k"] bit_push_bit_iff [of 1 y "Suc k"] by simp_all
    then show ?thesis using assms(1) by simp
  qed
qed

lemma zigzag_parity: "bit (zigzag x) 0 = (sint x < 0)"
  using bit_push_bit_iff [of 1 x 0] by (simp add: zigzag_def Let_def bit_not_iff)

lemma zigzag_inj:
  assumes "zigzag x = zigzag y"
  shows "x = y"
proof -
  have sgn: "(sint x < 0) = (sint y < 0)"
    using assms zigzag_parity [of x] zigzag_parity [of y] by simp
  then have b: "bit x 63 = bit y 63"
    using bit_last_iff [of x] bit_last_iff [of y] by simp
  have "push_bit 1 x = push_bit 1 y"
  proof (cases "sint x < 0")
    case True
    then have "NOT (push_bit 1 x) = NOT (push_bit 1 y)"
      using assms sgn by (simp add: zigzag_def Let_def)
    then show ?thesis by (simp only: bit.compl_eq_compl_iff)
  next
    case False
    then show ?thesis using assms sgn by (simp add: zigzag_def Let_def)
  qed
  then show ?thesis using b by (rule push_bit_1_inj)
qed

lemma encode_key_bytes:
  assumes "encode_key enc x = Some key"
  shows "key = EncodeToString enc (uvarint_bytes (zigzag x)) \<and> length (uvarint_bytes (zigzag x)) \<le> 8"
proof -
  obtain buf n where put: "PutUvarint (replicate 8 0) (zigzag x) = Some (buf, n)"
    and key: "key = EncodeToString enc (take n buf)"
    using assms by (auto simp: encode_key_def PutVarint_def zigzag_def Let_def split: option.splits)
  have "take n buf = uvarint_bytes (zigzag x)"
    using put by (rule PutUvarint_take)
  moreover have "length (uvarint_bytes (zigzag x)) \<le> 8"
    using put by (auto simp: PutUvarint_def PutUvarint_loop_eq split: if_splits)
  ultimately show ?thesis using key by simp
qed

lemma encode_key_inj:
  assumes "alphabet enc" and "encode_key enc x = Some key" and "encode_key enc y = Some key"
  shows "x = y"
proof -
  have "EncodeToString enc (uvarint_bytes (zigzag x)) = EncodeToString enc (uvarint_bytes (zigzag y))"
    using encode_key_bytes [OF assms(2)] encode_key_bytes [OF assms(3)] by simp
  then have "uvarint_bytes (zigzag x) = uvarint_bytes (zigzag y)"
    using assms(1) by (rule EncodeToString_inj [rotated])
  moreover have "length (uvarint_bytes (zigzag x)) \<le> 9"
    using encode_key_bytes [OF assms(2)] by simp
  ultimately have "zigzag x = zigzag y"
    by (rule uvarint_bytes_inj [rotated])
  then show ?thesis by (rule zigzag_inj)
qed

section \<open>Identifiers and keys\<close>




text \<open>The first identifier beyond the range: \<^verbatim>\<open>PutVarint\<close> needs a ninth byte and panics.\<close>

lemma encode_key_beyond: "encode_key enc (2 ^ 55) = None"
  by code_simp

section \<open>The save handler's ttl\<close>

text \<open>
  C10. The save handler assigns the ttl twice, first from the request's \<^verbatim>\<open>Expires\<close> and
  then from its \<^verbatim>\<open>TTL\<close>, and the second assignment overwrites the first: the ttl of the
  \<^verbatim>\<open>Save\<close> call is the request's \<^verbatim>\<open>TTL\<close> in seconds (0 when that is negative), so two
  requests that differ only in \<^verbatim>\<open>Expires\<close> pass the same ttl to the backend, and the
  handler answers both alike and leaves the same store.
\<close>

theorem handler_ttl_ignores_Expires:
  assumes "entry_Url q1 = entry_Url q2" and "entry_TTL q1 = entry_TTL q2"
  shows "handler_ttl q1 now = handler_ttl q2 now
     \<and> handler_ttl q1 now = (if sint (entry_TTL q1 * Second) < 0 then 0 else entry_TTL q1 * Second)
     \<and> SaveHandler backend_Save concatURL s (r\<lparr>body := Some q1\<rparr>) now
         = SaveHandler backend_Save concatURL s (r\<lparr>body := Some q2\<rparr>) now"
  using assms
  by (auto simp: handler_ttl_def SaveHandler_def Let_def split: prod.splits option.splits)

theorem handler_ttl_ignores_Expires_witness:
  "entry_Url \<lparr>entry_Url = ''http://here.com'', entry_TTL = 60, entry_Expires = 0\<rparr>
     = entry_Url \<lparr>entry_Url = ''http://here.com'', entry_TTL = 60, entry_Expires = 4102444800000000000\<rparr>
   \<and> entry_TTL \<lparr>entry_Url = ''http://here.com'', entry_TTL = 60, entry_Expires = 0\<rparr>
     = entry_TTL \<lparr>entry_Url = ''http://here.com'', entry_TTL = 60, entry_Expires = 4102444800000000000\<rparr>
   \<and> handler_ttl \<lparr>entry_Url = ''http://here.com'', entry_TTL = 60, entry_Expires = 0\<rparr> 1700000000000000000
     = handler_ttl \<lparr>entry_Url = ''http://here.com'', entry_TTL = 60, entry_Expires = 4102444800000000000\<rparr>
         1700000000000000000
   \<and> handler_ttl \<lparr>entry_Url = ''http://here.com'', entry_TTL = 60, entry_Expires = 4102444800000000000\<rparr>
         1700000000000000000 = 60000000000
   \<and> SaveHandler (\<lambda>s v t. Sqlite3_Save s v t 1700000000000000000) (\<lambda>l k. l @ k) Sqlite3_New
         \<lparr>content_type = ''application/json'', location = ''http://example.com/'',
          body = Some \<lparr>entry_Url = ''http://here.com'', entry_TTL = 60, entry_Expires = 0\<rparr>\<rparr>
         1700000000000000000
     = SaveHandler (\<lambda>s v t. Sqlite3_Save s v t 1700000000000000000) (\<lambda>l k. l @ k) Sqlite3_New
         \<lparr>content_type = ''application/json'', location = ''http://example.com/'',
          body = Some \<lparr>entry_Url = ''http://here.com'', entry_TTL = 60,
                        entry_Expires = 4102444800000000000\<rparr>\<rparr>
         1700000000000000000"
proof -
  let ?q1 = "\<lparr>entry_Url = ''http://here.com'', entry_TTL = 60, entry_Expires = 0\<rparr>"
  let ?q2 = "\<lparr>entry_Url = ''http://here.com'', entry_TTL = 60, entry_Expires = 4102444800000000000\<rparr>"
  let ?r = "\<lparr>content_type = ''application/json'', location = ''http://example.com/'', body = None\<rparr>"
  have u: "entry_Url ?q1 = entry_Url ?q2" and t: "entry_TTL ?q1 = entry_TTL ?q2"
    by simp_all
  note w = handler_ttl_ignores_Expires [OF u t, of 1700000000000000000
      "\<lambda>s v t. Sqlite3_Save s v t 1700000000000000000" "\<lambda>l k. l @ k" Sqlite3_New ?r]
  have w1: "handler_ttl ?q1 1700000000000000000 = handler_ttl ?q2 1700000000000000000"
    using w by (rule conjunct1)
  have w3: "SaveHandler (\<lambda>s v t. Sqlite3_Save s v t 1700000000000000000) (\<lambda>l k. l @ k) Sqlite3_New
         \<lparr>content_type = ''application/json'', location = ''http://example.com/'', body = Some ?q1\<rparr>
         1700000000000000000
     = SaveHandler (\<lambda>s v t. Sqlite3_Save s v t 1700000000000000000) (\<lambda>l k. l @ k) Sqlite3_New
         \<lparr>content_type = ''application/json'', location = ''http://example.com/'', body = Some ?q2\<rparr>
         1700000000000000000"
    using w by simp
  have e: "handler_ttl ?q2 1700000000000000000 = 60000000000"
    by (simp add: handler_ttl_def Second_def)
  show ?thesis
    by (intro conjI) (rule u, rule t, rule w1, rule e, rule w3)
qed

section \<open>Lookups on the Redis backend\<close>

lemma sint_succ: 
  assumes "c \<noteq> MaxInt64" shows "sint (c + 1) = sint c + 1"
proof -
  have "sint c \<noteq> 2 ^ 63 - 1"
  proof
    assume "sint c = 2 ^ 63 - 1"
    then have "sint c = sint MaxInt64" by (simp add: MaxInt64_def)
    then show False using assms by (simp add: signed_word_eqI)
  qed
  moreover have "sint c < 2 ^ 63" using sint_lt [of c] by simp
  moreover have "- (2 ^ 63) \<le> sint c" using sint_ge [of c] by simp
  ultimately have "- (2 ^ 63) \<le> sint c + 1 \<and> sint c + 1 < 2 ^ 63" by simp
  then show ?thesis
    by (simp add: sint_word_ariths signed_take_bit_int_eq_self)
qed

lemma Redis_Get_bad_key: "escape_MatchString key \<Longrightarrow> Redis_Get r key now = (Inl ErrWrongKey, r)"
  by (simp add: Redis_Get_def)

lemma Redis_Get_conn:
  "\<not> escape_MatchString key \<Longrightarrow>
   snd (Redis_Get r key now) = r\<lparr>conn := snd (HIncrBy (conn r) (prefix r @ key))\<rparr>"
  by (simp add: Redis_Get_def Let_def split: prod.splits option.splits)

lemma clicks_HIncrBy:
  assumes "can_count r path"
  shows "clicks (r\<lparr>conn := snd (HIncrBy (conn r) path)\<rparr>) path = clicks r path + 1"
proof (cases "conn r path")
  case None
  then show ?thesis by (simp add: clicks_def HIncrBy_def no_fields_def)
next
  case (Some v)
  show ?thesis
  proof (cases v)
    case (Counter n)
    with Some assms show ?thesis by (simp add: can_count_def)
  next
    case (Hash h)
    show ?thesis
    proof (cases "metaCount h")
      case None
      with Some Hash show ?thesis by (simp add: clicks_def HIncrBy_def)
    next
      case (Some c)
      with \<open>conn r path = Some v\<close> Hash assms have "c \<noteq> MaxInt64"
        by (simp add: can_count_def)
      with Some \<open>conn r path = Some v\<close> Hash show ?thesis
        by (simp add: clicks_def HIncrBy_def sint_succ)
    qed
  qed
qed

lemma HIncrBy_other: "p \<noteq> k \<Longrightarrow> snd (HIncrBy db k) p = db p"
  by (simp add: HIncrBy_def split: option.splits redis_value.splits)

text \<open>The sqlite3 \<^verbatim>\<open>Get\<close> writes nothing: the click count of a row stays what it was.\<close>

lemma Sqlite3_Get_leaves_table: "snd (Sqlite3_Get s key now) = s"
  by (simp add: Sqlite3_Get_def split: sum.splits option.splits prod.splits)

lemma allowed_Ag: "\<not> escape_MatchString ''Ag''"
  by code_simp

lemma not_allowed_colon: "escape_MatchString ''a:b''"
  by code_simp

lemma encode_key_Std_1: "encode_key encodeStd 1 = Some ''Ag''"
  by code_simp

lemma encode_key_Std_124: "encode_key encodeStd 124 = Some ''+AE''"
  by code_simp

lemma encode_key_URL_1: "encode_key encodeURL 1 = Some ''Ag''"
  by code_simp

lemma toInt64_Ag: "toInt64 ''Ag'' = Inr 1"
  by code_simp

lemma not_allowed_plus: "escape_MatchString ''+AE''"
  by code_simp

lemma Redis_Save_first:
  "Redis_Save (Redis_New Map.empty) value ttl now =
     (Some ''Ag'', Redis_New (Map.empty(''shrtie/meta:count'' \<mapsto> Counter 1, ''shrtie/Ag'' \<mapsto>
        Hash \<lparr>metaUrl = Some value, metaCreated = Some (Unix now),
              metaUntil = Some (if ttl = 0 then 0 else Unix (Add now ttl)), metaCount = None\<rparr>)))"
  by (simp add: Redis_Save_def Redis_New_def Incr_def encode_key_Std_1 HSet_def no_fields_def Let_def)

text \<open>
  C1, as the code has it. On the Redis backend every \<^verbatim>\<open>Get\<close> whose key passes the character
  check adds exactly one to the \<^verbatim>\<open>count\<close> field of the key's hash (a missing hash or field
  counts as 0), whether the lookup then succeeds, fails with \<^verbatim>\<open>ErrTTL\<close> or fails because
  nothing is stored: the increment is queued in the same pipeline as the two reads, before
  the expiry is looked at. It needs a path that holds no plain integer and a count below
  the largest \<^verbatim>\<open>int64\<close>. Nothing under another path changes, and a \<^verbatim>\<open>Get\<close> that the key
  check rejects leaves the server as it is.
\<close>

theorem Redis_Get_counts_every_lookup:
  "(escape_MatchString key \<longrightarrow> Redis_Get r key now = (Inl ErrWrongKey, r))
   \<and> (\<not> escape_MatchString key \<and> can_count r (prefix r @ key) \<longrightarrow>
        clicks (snd (Redis_Get r key now)) (prefix r @ key) = clicks r (prefix r @ key) + 1)
   \<and> (p \<noteq> prefix r @ key \<longrightarrow> conn (snd (Redis_Get r key now)) p = conn r p)"
proof (cases "escape_MatchString key")
  case True
  then have "Redis_Get r key now = (Inl ErrWrongKey, r)"
    by (rule Redis_Get_bad_key)
  then show ?thesis using True by simp
next
  case False
  then have after: "snd (Redis_Get r key now) = r\<lparr>conn := snd (HIncrBy (conn r) (prefix r @ key))\<rparr>"
    by (rule Redis_Get_conn)
  have "can_count r (prefix r @ key) \<longrightarrow>
        clicks (snd (Redis_Get r key now)) (prefix r @ key) = clicks r (prefix r @ key) + 1"
    by (simp add: after clicks_HIncrBy)
  moreover have "p \<noteq> prefix r @ key \<longrightarrow> conn (snd (Redis_Get r key now)) p = conn r p"
    by (simp add: after HIncrBy_other)
  ultimately show ?thesis using False by simp
qed

theorem Redis_Get_counts_every_lookup_witness:
  "escape_MatchString ''a:b''
   \<and> Redis_Get expired_link ''a:b'' 300000000000 = (Inl ErrWrongKey, expired_link)
   \<and> \<not> escape_MatchString ''Ag'' \<and> can_count expired_link (prefix expired_link @ ''Ag'')
   \<and> clicks (snd (Redis_Get expired_link ''Ag'' 300000000000)) (prefix expired_link @ ''Ag'')
       = clicks expired_link (prefix expired_link @ ''Ag'') + 1
   \<and> ''shrtie/meta:count'' \<noteq> prefix expired_link @ ''Ag''
   \<and> conn (snd (Redis_Get expired_link ''Ag'' 300000000000)) ''shrtie/meta:count''
       = conn expired_link ''shrtie/meta:count''"
proof -
  have c: "can_count expired_link (prefix expired_link @ ''Ag'')"
    by (simp add: can_count_def expired_link_def Redis_New_def MaxInt64_def)
  have d: "''shrtie/meta:count'' \<noteq> prefix expired_link @ ''Ag''"
    by (simp add: expired_link_def Redis_New_def)
  show ?thesis
    using Redis_Get_counts_every_lookup [of "''a:b''" expired_link 300000000000 "''shrtie/meta:count''"]
      Redis_Get_counts_every_lookup [of "''Ag''" expired_link 300000000000 "''shrtie/meta:count''"]
      allowed_Ag not_allowed_colon c d
    by blast
qed

text \<open>
  C1 as it is stated fails: a lookup of an expired link fails with \<^verbatim>\<open>ErrTTL\<close> and the click
  count goes from 3 to 4, and a lookup of a key that was never saved fails with
  \<^verbatim>\<open>redis.Nil\<close> and leaves a count of 1 behind.
\<close>

theorem Redis_Get_counts_failed_lookups:
  "fst (Redis_Get expired_link ''Ag'' 300000000000) = Inl ErrTTL
   \<and> clicks expired_link ''shrtie/Ag'' = 3
   \<and> clicks (snd (Redis_Get expired_link ''Ag'' 300000000000)) ''shrtie/Ag'' = 4
   \<and> fst (Redis_Get (Redis_New Map.empty) ''Ag'' 300000000000) = Inl RedisNil
   \<and> clicks (Redis_New Map.empty) ''shrtie/Ag'' = 0
   \<and> clicks (snd (Redis_Get (Redis_New Map.empty) ''Ag'' 300000000000)) ''shrtie/Ag'' = 1"
  by (simp add: Redis_Get_def allowed_Ag expired_link_def Redis_New_def HGet_def HIncrBy_def
      cmd_err_def Int64_def Unix_def clicks_def MaxInt64_def no_fields_def)

section \<open>Malformed keys and missing records on the Redis backend\<close>




section \<open>Links that never expire\<close>

lemma HIncrBy_never_expiring:
  "never_expiring r path value \<Longrightarrow>
   never_expiring (r\<lparr>conn := snd (HIncrBy (conn r) p)\<rparr>) path value"
  by (auto simp: never_expiring_def HIncrBy_def split: option.splits redis_value.splits)

lemma Redis_Get_prefix: "prefix (snd (Redis_Get r key now)) = prefix r"
  by (cases "escape_MatchString key") (simp_all add: Redis_Get_bad_key Redis_Get_conn)

lemma never_expiring_Get:
  assumes "never_expiring r (prefix r @ key) value"
  shows "fst (Redis_Get r key now) \<noteq> Inl ErrTTL"
    and "\<not> escape_MatchString key \<Longrightarrow> can_count r (prefix r @ key) \<Longrightarrow> fst (Redis_Get r key now) = Inr value"
proof -
  obtain h where h: "conn r (prefix r @ key) = Some (Hash h)" "metaUntil h = Some 0" "metaUrl h = Some value"
    using assms by (auto simp: never_expiring_def split: option.splits redis_value.splits)
  show "fst (Redis_Get r key now) \<noteq> Inl ErrTTL"
    using h
    by (auto simp: Redis_Get_def Let_def HGet_def HIncrBy_def cmd_err_def Int64_def Val_def
        split: option.splits prod.splits)
  show "fst (Redis_Get r key now) = Inr value"
    if "\<not> escape_MatchString key" "can_count r (prefix r @ key)"
    using h that
    by (auto simp: Redis_Get_def Let_def HGet_def HIncrBy_def cmd_err_def Int64_def Val_def can_count_def
        split: option.splits prod.splits)
qed

lemma never_expiring_Info:
  assumes "never_expiring r (prefix r @ key) value"
  shows "\<exists>m. Redis_Info r key now = Inr m \<and> URL m = value \<and> (0 \<le> Unix now \<longrightarrow> TTL m = 0)"
proof -
  obtain h where h: "conn r (prefix r @ key) = Some (Hash h)" "metaUntil h = Some 0" "metaUrl h = Some value"
    using assms by (auto simp: never_expiring_def split: option.splits redis_value.splits)
  then show ?thesis
    by (simp add: Redis_Info_def HGetAll_def len_def Let_def)
qed

lemma Redis_Save_zero_ttl:
  assumes "Redis_Save r value 0 now = (Some key, r')" and "key \<noteq> []"
  shows "never_expiring r' (prefix r' @ key) value"
  using assms
  apply (simp add: Redis_Save_def Let_def split: prod.splits sum.splits option.splits)
  apply (auto simp: HSet_def never_expiring_def split: option.splits redis_value.splits if_splits)
  done

lemma HSet_other: "p \<noteq> k \<Longrightarrow> snd (HSet db k upd) p = db p"
  by (simp add: HSet_def split: option.splits redis_value.splits)

lemma HSet_Counter: "db p = Some (Counter c) \<Longrightarrow> snd (HSet db k upd) p = Some (Counter c)"
  by (cases "p = k") (simp_all add: HSet_def split: option.splits redis_value.splits)

lemma Redis_Save_conn:
  "snd (Redis_Save r value ttl now) =
     (case Incr (conn r) (prefix r @ ''meta:count'') of
        (Inl err, db) \<Rightarrow> r\<lparr>conn := db\<rparr>
      | (Inr index, db) \<Rightarrow>
          (case encode_key encodeStd index of
             None \<Rightarrow> r\<lparr>conn := db\<rparr>
           | Some key \<Rightarrow>
               r\<lparr>conn := snd (HSet (snd (HSet (snd (HSet db (prefix r @ key)
                   (\<lambda>h. h\<lparr>metaUrl := Some value\<rparr>))) (prefix r @ key)
                   (\<lambda>h. h\<lparr>metaCreated := Some (Unix now)\<rparr>))) (prefix r @ key)
                   (\<lambda>h. h\<lparr>metaUntil := Some (if ttl = 0 then 0 else Unix (Add now ttl))\<rparr>))\<rparr>))"
  by (simp add: Redis_Save_def Let_def split: prod.splits sum.splits option.splits)

lemma kept_Redis_Save:
  assumes key: "encode_key encodeStd index = Some key" and kept: "kept r index key value"
  shows "kept (snd (Redis_Save r v ttl now)) index key value"
proof -
  let ?cp = "prefix r @ ''meta:count''"
  let ?p = "prefix r @ key"
  obtain c where c: "conn r ?cp = Some (Counter c)" and ic: "sint index \<le> sint c"
    using kept by (auto simp: kept_def split: option.splits redis_value.splits)
  obtain h where h: "conn r ?p = Some (Hash h)" "metaUntil h = Some 0" "metaUrl h = Some value"
    using kept by (auto simp: kept_def never_expiring_def split: option.splits redis_value.splits)
  have pcp: "?p \<noteq> ?cp" using c h by auto
  show ?thesis
  proof (cases "c = MaxInt64")
    case True
    then have "snd (Redis_Save r v ttl now) = r"
      using c by (simp add: Redis_Save_conn Incr_def)
    then show ?thesis using kept by simp
  next
    case False
    let ?db = "(conn r)(?cp \<mapsto> Counter (c + 1))"
    have incr: "Incr (conn r) ?cp = (Inr (c + 1), ?db)"
      using c False by (simp add: Incr_def)
    have ic': "sint index < sint (c + 1)"
      using ic False by (simp add: sint_succ)
    show ?thesis
    proof (cases "encode_key encodeStd (c + 1)")
      case None
      then have "snd (Redis_Save r v ttl now) = r\<lparr>conn := ?db\<rparr>"
        by (simp add: Redis_Save_conn incr)
      then show ?thesis
        using h pcp ic' by (simp add: kept_def never_expiring_def)
    next
      case (Some key')
      have "key' \<noteq> key"
      proof
        assume "key' = key"
        then have "c + 1 = index"
          using encode_key_inj [OF alphabet_encodeStd Some] key by simp
        then show False using ic' by simp
      qed
      then have pp: "?p \<noteq> prefix r @ key'" by simp
      let ?db3 = "snd (HSet (snd (HSet (snd (HSet ?db (prefix r @ key')
                   (\<lambda>h. h\<lparr>metaUrl := Some v\<rparr>))) (prefix r @ key')
                   (\<lambda>h. h\<lparr>metaCreated := Some (Unix now)\<rparr>))) (prefix r @ key')
                   (\<lambda>h. h\<lparr>metaUntil := Some (if ttl = 0 then 0 else Unix (Add now ttl))\<rparr>))"
      have after: "snd (Redis_Save r v ttl now) = r\<lparr>conn := ?db3\<rparr>"
        by (simp add: Redis_Save_conn incr Some)
      have "?db3 ?p = conn r ?p"
        using pp pcp by (simp add: HSet_other)
      moreover have "?db3 ?cp = Some (Counter (c + 1))"
        by (simp add: HSet_Counter)
      ultimately show ?thesis
        using h ic' by (simp add: after kept_def never_expiring_def)
    qed
  qed
qed

lemma kept_Redis_Get:
  assumes "kept r index key value"
  shows "kept (snd (Redis_Get r k now)) index key value"
proof (cases "escape_MatchString k")
  case True
  then show ?thesis using assms by (simp add: Redis_Get_bad_key)
next
  case False
  let ?cp = "prefix r @ ''meta:count''"
  obtain c where c: "conn r ?cp = Some (Counter c)" and ic: "sint index \<le> sint c"
    using assms by (auto simp: kept_def split: option.splits redis_value.splits)
  have "snd (HIncrBy (conn r) (prefix r @ k)) ?cp = Some (Counter c)"
    using c by (cases "?cp = prefix r @ k") (simp_all add: HIncrBy_def split: option.splits redis_value.splits)
  moreover have "never_expiring (r\<lparr>conn := snd (HIncrBy (conn r) (prefix r @ k))\<rparr>) (prefix r @ key) value"
    using assms by (simp add: kept_def HIncrBy_never_expiring)
  ultimately show ?thesis
    using False ic by (simp add: Redis_Get_conn kept_def)
qed

lemma Redis_Save_prefix: "prefix (snd (Redis_Save r v ttl now)) = prefix r"
  by (simp add: Redis_Save_conn split: prod.splits sum.splits option.splits)

lemma kept_run:
  "encode_key encodeStd index = Some key \<Longrightarrow> kept r index key value \<Longrightarrow> kept (run r ops) index key value"
  by (induction r ops rule: run.induct) (simp_all add: kept_Redis_Save kept_Redis_Get)

lemma run_prefix: "prefix (run r ops) = prefix r"
  by (induction r ops rule: run.induct) (simp_all add: Redis_Save_prefix Redis_Get_prefix)

lemma Redis_Save_zero_ttl_kept:
  assumes "Redis_Save r value 0 now = (Some key, r')" and "key \<noteq> []"
  shows "\<exists>index. encode_key encodeStd index = Some key \<and> kept r' index key value"
proof -
  let ?cp = "prefix r @ ''meta:count''"
  obtain index db where incr: "Incr (conn r) ?cp = (Inr index, db)"
    using assms by (auto simp: Redis_Save_def split: prod.splits sum.splits)
  have key: "encode_key encodeStd index = Some key"
    using assms incr by (auto simp: Redis_Save_def Let_def split: prod.splits option.splits)
  have dbcp: "db ?cp = Some (Counter index)"
    using incr by (auto simp: Incr_def split: option.splits redis_value.splits if_splits)
  let ?db3 = "snd (HSet (snd (HSet (snd (HSet db (prefix r @ key)
                   (\<lambda>h. h\<lparr>metaUrl := Some value\<rparr>))) (prefix r @ key)
                   (\<lambda>h. h\<lparr>metaCreated := Some (Unix now)\<rparr>))) (prefix r @ key)
                   (\<lambda>h. h\<lparr>metaUntil := Some (if (0::Duration) = 0 then 0 else Unix (Add now 0))\<rparr>))"
  have "r' = snd (Redis_Save r value 0 now)" using assms(1) by simp
  then have r': "r' = r\<lparr>conn := ?db3\<rparr>"
    by (simp add: Redis_Save_conn incr key)
  have "?db3 ?cp = Some (Counter index)"
    using dbcp by (simp add: HSet_Counter)
  moreover have "never_expiring r' (prefix r' @ key) value"
    using assms by (rule Redis_Save_zero_ttl)
  ultimately have "kept r' index key value"
    by (simp add: kept_def r')
  then show ?thesis using key by blast
qed

text \<open>
  C7, as the code has it. A \<^verbatim>\<open>Save\<close> on the Redis backend with the ttl 0 that returns a key
  stores the expiry 0, and it stays: after any run of later saves, lookups and infos, and
  whatever the clock reads, a \<^verbatim>\<open>Get\<close> of the key does not fail with \<^verbatim>\<open>ErrTTL\<close> (it returns
  the url when the key passes the key check and the count can still grow) and \<^verbatim>\<open>Info\<close>
  returns the url, with the ttl 0 when the clock is not before 1970. A negative ttl is
  replaced by 0 in the save handler, before the backend is called.
\<close>

theorem Redis_Save_zero_ttl_never_expires:
  assumes "Redis_Save r value 0 now = (Some key, r')" and "key \<noteq> []"
  shows "never_expiring (run r' ops) (prefix r' @ key) value
     \<and> fst (Redis_Get (run r' ops) key now') \<noteq> Inl ErrTTL
     \<and> (\<not> escape_MatchString key \<and> can_count (run r' ops) (prefix r' @ key) \<longrightarrow>
          fst (Redis_Get (run r' ops) key now') = Inr value)
     \<and> (\<exists>m. Redis_Info (run r' ops) key now' = Inr m \<and> URL m = value
              \<and> (0 \<le> Unix now' \<longrightarrow> TTL m = 0))
     \<and> (sint (entry_TTL request * Second) < 0 \<longrightarrow> handler_ttl request now'' = 0)"
proof -
  obtain index where "encode_key encodeStd index = Some key" and "kept r' index key value"
    using Redis_Save_zero_ttl_kept [OF assms] by blast
  then have "kept (run r' ops) index key value"
    by (rule kept_run)
  then have stays: "never_expiring (run r' ops) (prefix r' @ key) value"
    by (simp add: kept_def run_prefix)
  then have later: "never_expiring (run r' ops) (prefix (run r' ops) @ key) value"
    by (simp add: run_prefix)
  have "fst (Redis_Get (run r' ops) key now') \<noteq> Inl ErrTTL"
    using later by (rule never_expiring_Get(1))
  moreover have "\<not> escape_MatchString key \<and> can_count (run r' ops) (prefix r' @ key) \<longrightarrow>
          fst (Redis_Get (run r' ops) key now') = Inr value"
    using never_expiring_Get(2) [OF later] by (simp add: run_prefix)
  moreover have "\<exists>m. Redis_Info (run r' ops) key now' = Inr m \<and> URL m = value
              \<and> (0 \<le> Unix now' \<longrightarrow> TTL m = 0)"
    using later by (rule never_expiring_Info)
  moreover have "sint (entry_TTL request * Second) < 0 \<longrightarrow> handler_ttl request now'' = 0"
    by (simp add: handler_ttl_def)
  ultimately show ?thesis using stays by blast
qed

theorem Redis_Save_zero_ttl_never_expires_witness:
  "Redis_Save (Redis_New Map.empty) ''https://example.org'' 0 100000000000 = (Some ''Ag'', unlimited_link)
   \<and> ''Ag'' \<noteq> []
   \<and> \<not> escape_MatchString ''Ag''
   \<and> can_count (run unlimited_link
          [Get ''Ag'' 200000000000, Save ''https://example.com'' 5000000000 250000000000,
           Info ''Ag'' 260000000000, Get ''zz'' 300000000000])
        (prefix unlimited_link @ ''Ag'')
   \<and> 0 \<le> Unix 400000000000
   \<and> sint (entry_TTL \<lparr>entry_Url = ''https://example.org'', entry_TTL = - 111, entry_Expires = 0\<rparr> * Second) < 0
   \<and> never_expiring (run unlimited_link
          [Get ''Ag'' 200000000000, Save ''https://example.com'' 5000000000 250000000000,
           Info ''Ag'' 260000000000, Get ''zz'' 300000000000])
        (prefix unlimited_link @ ''Ag'') ''https://example.org''
   \<and> fst (Redis_Get (run unlimited_link
          [Get ''Ag'' 200000000000, Save ''https://example.com'' 5000000000 250000000000,
           Info ''Ag'' 260000000000, Get ''zz'' 300000000000])
            ''Ag'' 400000000000) = Inr ''https://example.org''
   \<and> (\<exists>m. Redis_Info (run unlimited_link
          [Get ''Ag'' 200000000000, Save ''https://example.com'' 5000000000 250000000000,
           Info ''Ag'' 260000000000, Get ''zz'' 300000000000])
              ''Ag'' 400000000000 = Inr m \<and> URL m = ''https://example.org'' \<and> TTL m = 0)
   \<and> handler_ttl \<lparr>entry_Url = ''https://example.org'', entry_TTL = - 111, entry_Expires = 0\<rparr>
         400000000000 = 0"
proof -
  let ?ops = "[Get ''Ag'' 200000000000, Save ''https://example.com'' 5000000000 250000000000,
           Info ''Ag'' 260000000000, Get ''zz'' 300000000000]"
  let ?q = "\<lparr>entry_Url = ''https://example.org'', entry_TTL = - 111, entry_Expires = 0\<rparr>"
  have s: "Redis_Save (Redis_New Map.empty) ''https://example.org'' 0 100000000000 = (Some ''Ag'', unlimited_link)"
    by (simp add: unlimited_link_def Redis_Save_first)
  have k: "''Ag'' \<noteq> []" by simp
  have c: "can_count (run unlimited_link ?ops) (prefix unlimited_link @ ''Ag'')"
    by code_simp
  have t: "0 \<le> Unix 400000000000" by (simp add: Unix_def)
  have n: "sint (entry_TTL ?q * Second) < 0" by (simp add: Second_def)
  note w = Redis_Save_zero_ttl_never_expires [OF s k, of ?ops 400000000000 ?q 400000000000]
  show ?thesis
    using w s k c t n allowed_Ag by blast
qed

text \<open>
  C7 as it is stated fails for a negative ttl: \<^verbatim>\<open>Save\<close> with a ttl of minus five seconds at
  second 100 stores the expiry 95, and a \<^verbatim>\<open>Get\<close> and an \<^verbatim>\<open>Info\<close> in the same second fail
  with \<^verbatim>\<open>ErrTTL\<close>.
\<close>

theorem Redis_Save_negative_ttl_expires:
  "sint (- 5000000000 :: Duration) \<le> 0
   \<and> fst (Redis_Save (Redis_New Map.empty) ''https://example.org'' (- 5000000000) 100000000000) = Some ''Ag''
   \<and> HGet (conn (snd (Redis_Save (Redis_New Map.empty) ''https://example.org'' (- 5000000000) 100000000000)))
        ''shrtie/Ag'' metaUntil = Inr 95
   \<and> fst (Redis_Get (snd (Redis_Save (Redis_New Map.empty) ''https://example.org'' (- 5000000000) 100000000000))
        ''Ag'' 100000000000) = Inl ErrTTL
   \<and> Redis_Info (snd (Redis_Save (Redis_New Map.empty) ''https://example.org'' (- 5000000000) 100000000000))
        ''Ag'' 100000000000 = Inl ErrTTL"
  unfolding Redis_Save_first
  by (simp add: Redis_New_def Redis_Get_def Redis_Info_def allowed_Ag HGet_def HGetAll_def
      HIncrBy_def cmd_err_def Int64_def Unix_def Add_def len_def)

section \<open>Where the code departs from its own intent\<close>

lemma Sqlite3_Save_first:
  "length value \<le> maxLength \<Longrightarrow>
   Sqlite3_Save Sqlite3_New value ttl now =
     (Some ''Ag'', \<lparr>seq = 1, shrtie_url = Map.empty(1 \<mapsto>
        \<lparr>col_url = value, col_until = (if ttl \<noteq> 0 then Unix (Add now ttl) else 0),
         col_count = 0, col_created = Unix now\<rparr>)\<rparr>)"
  by (simp add: Sqlite3_Save_def Sqlite3_New_def insertStmt_Exec_def MaxInt64_def encode_key_URL_1 Let_def)

text \<open>
  When the two Redis reads treat a stored link as live, and what the sqlite3 \<^verbatim>\<open>Get\<close> does
  with the expiry 0.
\<close>

lemma Redis_Get_live:
  assumes "\<not> escape_MatchString key" and "conn r (prefix r @ key) = Some (Hash h)"
    and "metaUrl h = Some url" and "metaUntil h = Some until" and "metaCount h \<noteq> Some MaxInt64"
  shows "fst (Redis_Get r key now) = (if until \<noteq> 0 \<and> until < Unix now then Inl ErrTTL else Inr url)"
  using assms
  by (auto simp: Redis_Get_def Let_def HGet_def HIncrBy_def cmd_err_def Int64_def Val_def
      split: option.splits)

lemma Redis_Info_live:
  assumes "conn r (prefix r @ key) = Some (Hash h)"
    and "metaUrl h = Some url" and "metaUntil h = Some until"
  shows "(\<exists>m. Redis_Info r key now = Inr m) \<longleftrightarrow> until = 0 \<or> Unix now < until"
  using assms
  by (auto simp: Redis_Info_def Let_def HGetAll_def len_def)

lemma Sqlite3_Get_sentinel:
  assumes "toInt64 key = Inr index" and "shrtie_url s index = Some rw" and "col_until rw = 0"
    and "0 < Unix now"
  shows "fst (Sqlite3_Get s key now) = Inl ErrTTL"
  using assms by (simp add: Sqlite3_Get_def getStmt_QueryRow_def)

text \<open>
  C2. A record is live when its expiry is 0 or later than the clock. The sqlite3 \<^verbatim>\<open>Get\<close>
  compares \<^verbatim>\<open>until < now\<close> without looking for the 0 that \<^verbatim>\<open>Save\<close> stores for the ttl 0:
  the link saved with the ttl 0 fails with \<^verbatim>\<open>ErrTTL\<close> in the very second it was saved. The
  Redis \<^verbatim>\<open>Get\<close> tests \<^verbatim>\<open>now > ttlTo\<close>: in the second of the expiry, 200, it still returns
  the url, where \<^verbatim>\<open>Info\<close> of the same backend reports \<^verbatim>\<open>ErrTTL\<close>.
\<close>

theorem Sqlite3_Get_expires_unlimited_link:
  "fst (Sqlite3_Save Sqlite3_New ''https://example.org'' 0 1700000000000000000) = Some ''Ag''
   \<and> fst (Sqlite3_Get (snd (Sqlite3_Save Sqlite3_New ''https://example.org'' 0 1700000000000000000))
          ''Ag'' 1700000000000000000) = Inl ErrTTL
   \<and> HGet (conn expired_link) ''shrtie/Ag'' metaUntil = Inr 200
   \<and> fst (Redis_Get expired_link ''Ag'' 200000000000) = Inr ''https://example.org''
   \<and> Redis_Info expired_link ''Ag'' 200000000000 = Inl ErrTTL"
proof -
  have "length ''https://example.org'' \<le> maxLength" by (simp add: maxLength_def)
  note s = Sqlite3_Save_first [OF this, of 0 1700000000000000000]
  have "fst (Sqlite3_Get (snd (Sqlite3_Save Sqlite3_New ''https://example.org'' 0 1700000000000000000))
          ''Ag'' 1700000000000000000) = Inl ErrTTL"
    unfolding s by (simp add: Sqlite3_Get_def toInt64_Ag getStmt_QueryRow_def Unix_def)
  moreover have "fst (Redis_Get expired_link ''Ag'' 200000000000) = Inr ''https://example.org''"
    by (simp add: Redis_Get_def allowed_Ag expired_link_def Redis_New_def HGet_def HIncrBy_def
      cmd_err_def Int64_def Val_def Unix_def MaxInt64_def)
  moreover have "Redis_Info expired_link ''Ag'' 200000000000 = Inl ErrTTL"
    by (simp add: Redis_Info_def expired_link_def Redis_New_def HGetAll_def len_def Unix_def)
  moreover have "HGet (conn expired_link) ''shrtie/Ag'' metaUntil = Inr 200"
    by (simp add: expired_link_def Redis_New_def HGet_def)
  ultimately show ?thesis by (simp add: s)
qed

text \<open>
  C4. Keys have no \<^verbatim>\<open>+\<close>, \<^verbatim>\<open>/\<close> or \<^verbatim>\<open>=\<close>. The Redis \<^verbatim>\<open>Save\<close> encodes with
  \<^verbatim>\<open>RawStdEncoding\<close>, whose alphabet has \<^verbatim>\<open>+\<close> and \<^verbatim>\<open>/\<close>: the identifier 124 gets the key
  \<^verbatim>\<open>+AE\<close>, which \<^verbatim>\<open>Get\<close> of the same backend rejects with \<^verbatim>\<open>ErrWrongKey\<close>.
\<close>

theorem Redis_Save_key_not_url_safe:
  "fst (Redis_Save (Redis_New (Map.empty(''shrtie/meta:count'' \<mapsto> Counter 123)))
          ''https://example.org'' 0 1700000000000000000) = Some ''+AE''
   \<and> CHR ''+'' \<in> set ''+AE''
   \<and> fst (Redis_Get (snd (Redis_Save (Redis_New (Map.empty(''shrtie/meta:count'' \<mapsto> Counter 123)))
                         ''https://example.org'' 0 1700000000000000000))
          ''+AE'' 1700000000000000000) = Inl ErrWrongKey"
proof -
  have "fst (Redis_Save (Redis_New (Map.empty(''shrtie/meta:count'' \<mapsto> Counter 123)))
          ''https://example.org'' 0 1700000000000000000) = Some ''+AE''"
    by (simp add: Redis_Save_def Redis_New_def Incr_def MaxInt64_def encode_key_Std_124 HSet_def Let_def)
  then show ?thesis
    by (simp add: Redis_Get_bad_key not_allowed_plus)
qed

text \<open>The keys of the sqlite3 backend are in the URL alphabet.\<close>

lemma Sqlite3_key_url_safe:
  "encode_key encodeURL n = Some key \<Longrightarrow>
   set key \<subseteq> set encodeURL \<and> CHR ''+'' \<notin> set key \<and> CHR ''/'' \<notin> set key \<and> CHR ''='' \<notin> set key"
proof -
  assume "encode_key encodeURL n = Some key"
  then obtain src where "key = EncodeToString encodeURL src"
    by (auto simp: encode_key_def split: option.splits)
  then have "set key \<subseteq> set encodeURL"
    using EncodeToString_alphabet [of encodeURL src] by (simp add: encodeURL_length)
  then show ?thesis
    using encodeURL_chars by (auto simp: list_all_iff)
qed

text \<open>The sqlite3 \<^verbatim>\<open>Get\<close> of a well-formed key without a row.\<close>

lemma Sqlite3_Get_absent:
  assumes "toInt64 key = Inr index" and "shrtie_url s index = None"
  shows "Sqlite3_Get s key now = (Inr [], s)"
  using assms by (simp add: Sqlite3_Get_def getStmt_QueryRow_def)

text \<open>
  C6. A lookup of a key without a record fails. The sqlite3 \<^verbatim>\<open>Get\<close> returns the empty url
  and no error when the row is missing (\<^verbatim>\<open>return "", nil\<close>); the Redis \<^verbatim>\<open>Get\<close> returns the
  error \<^verbatim>\<open>redis.Nil\<close>.
\<close>

theorem Sqlite3_Get_absent_succeeds:
  "toInt64 ''Ag'' = Inr 1
   \<and> shrtie_url Sqlite3_New 1 = None
   \<and> fst (Sqlite3_Get Sqlite3_New ''Ag'' 1700000000000000000) = Inr []
   \<and> fst (Redis_Get (Redis_New Map.empty) ''Ag'' 1700000000000000000) = Inl RedisNil"
  by (simp add: toInt64_Ag Sqlite3_Get_def Sqlite3_New_def getStmt_QueryRow_def
      Redis_Get_def allowed_Ag Redis_New_def HGet_def HIncrBy_def cmd_err_def)

text \<open>
  The later revision of the Redis \<^verbatim>\<open>Save\<close> and the sqlite3 \<^verbatim>\<open>Save\<close> return the empty key
  for a url of more than 2048 bytes and leave the store as it is.
\<close>

lemma Redis_Save_HMSet_too_long:
  "length value > maxLength \<Longrightarrow> Redis_Save_HMSet r value ttl now = (Some [], r)"
  by (simp add: Redis_Save_HMSet_def)

lemma Sqlite3_Save_too_long:
  "length value > maxLength \<Longrightarrow> Sqlite3_Save s value ttl now = (Some [], s)"
  by (simp add: Sqlite3_Save_def)

text \<open>
  C8. A url of more than 2048 bytes is refused before an identifier is taken. \<^verbatim>\<open>Save\<close> of
  \<^verbatim>\<open>backend/redis/redis.go\<close> has no length check: a url of 2049 bytes gets the key \<^verbatim>\<open>Ag\<close>,
  the counter goes to 1 and the next link gets the key \<^verbatim>\<open>BA\<close> of the identifier 2.
\<close>

theorem Redis_Save_allocates_for_long_url:
  "length (replicate 2049 (CHR ''a'')) > maxLength
   \<and> fst (Redis_Save (Redis_New Map.empty) (replicate 2049 (CHR ''a'')) 0 1700000000000000000) = Some ''Ag''
   \<and> conn (snd (Redis_Save (Redis_New Map.empty) (replicate 2049 (CHR ''a'')) 0 1700000000000000000))
        ''shrtie/meta:count'' = Some (Counter 1)
   \<and> fst (Redis_Save (snd (Redis_Save (Redis_New Map.empty) (replicate 2049 (CHR ''a'')) 0 1700000000000000000))
        ''https://example.org'' 0 1700000000000000000) = Some ''BA''
   \<and> Redis_Save_HMSet (Redis_New Map.empty) (replicate 2049 (CHR ''a'')) 0 1700000000000000000
        = (Some [], Redis_New Map.empty)"
proof -
  have l: "length (replicate 2049 (CHR ''a'')) > maxLength" by (simp add: maxLength_def)
  have e: "encode_key encodeStd 2 = Some ''BA''" by code_simp
  show ?thesis
    unfolding Redis_Save_first Redis_Save_HMSet_too_long [OF l]
    by (simp add: Redis_New_def maxLength_def Redis_Save_def Incr_def MaxInt64_def e HSet_def Let_def)
qed

end
